theory Spec2Isabelle
  imports Complex_Main "HOL-Library.Log_Nat"
begin

section \<open>Arrays of rows\<close>

text \<open>
  The boards and the boolean maps of the three components are arrays of rows, read as
  \<open>a[y][x]\<close> and written as \<open>a[y][x] = v\<close>, with numbers as indices. The handlers
  receive the coordinates of a rendered tile and the loops check the bounds before they
  index, so the indices are in range wherever the code indexes; the theorems state that
  as a hypothesis (\<open>rect\<close> is the shape of an array of \<open>h\<close> rows of \<open>w\<close> cells).
\<close>

definition at2 :: "'a list list \<Rightarrow> int \<Rightarrow> int \<Rightarrow> 'a" where
  "at2 a x y = a ! nat y ! nat x"

definition set2 :: "'a list list \<Rightarrow> int \<Rightarrow> int \<Rightarrow> 'a \<Rightarrow> 'a list list" where
  "set2 a x y v = a[nat y := (a ! nat y)[nat x := v]]"

definition rect :: "nat \<Rightarrow> nat \<Rightarrow> 'a list list \<Rightarrow> bool" where
  "rect h w a = (length a = h \<and> list_all (\<lambda>r. length r = w) a)"

section \<open>Battle for Fun: the turn-driven game (pages/Game.tsx)\<close>

text \<open>
  The React component \<open>Game\<close> keeps its state in hooks and changes it through
  handlers. Each handler is modelled as a function from the state before the handler
  runs to the state once React has applied all the \<open>set...\<close> calls of the handler
  (the last \<open>set\<close> of a hook wins).

  The numbers of this component are modelled as exact numbers: \<open>rat\<close> where the code
  divides (health, attack, defense, terrain figures), \<open>int\<close> for coordinates and ranges,
  which are only ever added and compared. The rounding of IEEE doubles is modelled where
  a result is cut to an integer, in \<open>performAttack\<close> of \<open>Game2\<close>.

  The two \<open>type\<close> fields are named \<open>unit_type\<close> and \<open>terrain_type\<close>, and \<open>id\<close> is
  named \<open>unit_id\<close>, since record fields share one name space with the constants of HOL.
\<close>

datatype UnitType = Infantry | Tank | Artillery | APC
datatype TerrainType = Plain | Mountain | Forest | City | Road
datatype Player = Red | Blue

record Unit =
  unit_id :: string
  unit_type :: UnitType
  health :: rat
  attack :: rat
  defense :: rat
  moveRange :: int
  attackRange :: int
  position :: "int \<times> int"
  hasMoved :: bool
  hasAttacked :: bool
  player :: Player

record Terrain =
  terrain_type :: TerrainType
  defenseBonus :: rat
  movementCost :: rat

record Tile =
  tile_position :: "int \<times> int"
  terrain :: Terrain
  unit :: "Unit option"

definition GRID_SIZE :: int where
  "GRID_SIZE = 10"

text \<open>\<open>UNIT_TYPES[type]\<close> with the fields \<open>createUnit\<close> adds.\<close>

fun UNIT_TYPES :: "UnitType \<Rightarrow> rat \<times> rat \<times> rat \<times> int \<times> int" where
  "UNIT_TYPES Infantry = (100, 55, 10, 3, 1)"
| "UNIT_TYPES Tank = (100, 75, 30, 5, 1)"
| "UNIT_TYPES Artillery = (100, 90, 5, 3, 3)"
| "UNIT_TYPES APC = (100, 0, 15, 6, 0)"

fun TERRAIN_TYPES :: "TerrainType \<Rightarrow> Terrain" where
  "TERRAIN_TYPES Plain = \<lparr>terrain_type = Plain, defenseBonus = 0, movementCost = 1\<rparr>"
| "TERRAIN_TYPES Mountain = \<lparr>terrain_type = Mountain, defenseBonus = 30, movementCost = 3\<rparr>"
| "TERRAIN_TYPES Forest = \<lparr>terrain_type = Forest, defenseBonus = 10, movementCost = 2\<rparr>"
| "TERRAIN_TYPES City = \<lparr>terrain_type = City, defenseBonus = 20, movementCost = 1\<rparr>"
| "TERRAIN_TYPES Road = \<lparr>terrain_type = Road, defenseBonus = 0, movementCost = 1 / 2\<rparr>"

text \<open>\<open>createUnit\<close>; the random \<open>generateId()\<close> is passed in.\<close>

definition createUnit :: "string \<Rightarrow> UnitType \<Rightarrow> int \<times> int \<Rightarrow> Player \<Rightarrow> Unit" where
  "createUnit i t pos p =
     (case UNIT_TYPES t of (h, a, d, mr, ar) \<Rightarrow>
        \<lparr>unit_id = i, unit_type = t, health = h, attack = a, defense = d,
         moveRange = mr, attackRange = ar, position = pos,
         hasMoved = False, hasAttacked = False, player = p\<rparr>)"

definition calculateDamage :: "Unit \<Rightarrow> Unit \<Rightarrow> Terrain \<Rightarrow> rat" where
  "calculateDamage attacker defender defenderTerrain =
     (let terrainDefense = defense defender * (defenseBonus defenderTerrain / 100);
          damage = max 0 (attack attacker - (defense defender + terrainDefense))
      in min (health defender) (max 10 damage))"

text \<open>\<open>grid[y][x]\<close> and \<open>grid[y][x].unit = u\<close>\<close>

definition tileAt :: "Tile list list \<Rightarrow> int \<Rightarrow> int \<Rightarrow> Tile" where
  "tileAt g x y = at2 g x y"

definition setUnit :: "Tile list list \<Rightarrow> int \<Rightarrow> int \<Rightarrow> Unit option \<Rightarrow> Tile list list" where
  "setUnit g x y u = set2 g x y ((at2 g x y)\<lparr>unit := u\<rparr>)"

text \<open>
  The status line. Each constructor stands for one string of the source:
  \<open>SelectUnitToMove\<close> 'Select a unit to move',
  \<open>ItsPlayersTurn p\<close> `It's ${p}'s turn`,
  \<open>AlreadyMovedAndAttacked\<close> 'This unit has already moved and attacked this turn',
  \<open>SelectTileToMoveTo\<close> 'Select a tile to move to',
  \<open>SelectEnemyToAttack\<close> 'Select an enemy unit to attack',
  \<open>NoEnemiesInRange\<close> 'No enemies in range to attack',
  \<open>SelectAnotherUnit\<close> 'Select another unit',
  \<open>Destroyed t\<close> `${t} destroyed!`,
  \<open>TookDamage t d\<close> `${t} took ${d} damage!`,
  \<open>Wins p\<close> `${p} wins!`,
  \<open>PlayersTurn p\<close> `${p}'s turn`.
\<close>

datatype GameStatus =
    SelectUnitToMove
  | ItsPlayersTurn Player
  | AlreadyMovedAndAttacked
  | SelectTileToMoveTo
  | SelectEnemyToAttack
  | NoEnemiesInRange
  | SelectAnotherUnit
  | Destroyed UnitType
  | TookDamage UnitType rat
  | Wins Player
  | PlayersTurn Player

text \<open>
  The hooks of the component. The hook \<open>attackRange\<close> is named \<open>attackTargets\<close> here,
  since the unit's field already has that name.
\<close>

record GameState =
  grid :: "Tile list list"
  selectedUnit :: "Unit option"
  currentPlayer :: Player
  movementRange :: "(int \<times> int) list"
  attackTargets :: "(int \<times> int) list"
  gameStatus :: GameStatus

definition calculateMovementRange :: "Tile list list \<Rightarrow> Unit \<Rightarrow> (int \<times> int) list" where
  "calculateMovementRange g u =
     (case position u of (x, y) \<Rightarrow>
        let range = moveRange u in
        [(x + dx, y + dy).
           dx \<leftarrow> [- range .. range], dy \<leftarrow> [- range .. range],
           \<not> (x + dx < 0 \<or> x + dx \<ge> GRID_SIZE \<or> y + dy < 0 \<or> y + dy \<ge> GRID_SIZE),
           \<not> (unit (tileAt g (x + dx) (y + dy)) \<noteq> None),
           \<bar>dx\<bar> + \<bar>dy\<bar> \<le> range])"

definition calculateAttackRange :: "Tile list list \<Rightarrow> Unit \<Rightarrow> (int \<times> int) list" where
  "calculateAttackRange g u =
     (case position u of (x, y) \<Rightarrow>
        let range = attackRange u in
        [(x + dx, y + dy).
           dx \<leftarrow> [- range .. range], dy \<leftarrow> [- range .. range],
           \<not> (x + dx < 0 \<or> x + dx \<ge> GRID_SIZE \<or> y + dy < 0 \<or> y + dy \<ge> GRID_SIZE),
           \<not> (case unit (tileAt g (x + dx) (y + dy)) of
                 None \<Rightarrow> True
               | Some t \<Rightarrow> player t = player u),
           \<bar>dx\<bar> + \<bar>dy\<bar> \<le> range])"

definition handleUnitSelect :: "GameState \<Rightarrow> int \<Rightarrow> int \<Rightarrow> GameState" where
  "handleUnitSelect st x y =
     (case unit (tileAt (grid st) x y) of
        None \<Rightarrow> st\<lparr>selectedUnit := None, movementRange := [], attackTargets := []\<rparr>
      | Some u \<Rightarrow>
          if player u \<noteq> currentPlayer st then
            st\<lparr>gameStatus := ItsPlayersTurn (currentPlayer st)\<rparr>
          else if hasMoved u \<and> hasAttacked u then
            st\<lparr>gameStatus := AlreadyMovedAndAttacked\<rparr>
          else if \<not> hasMoved u then
            st\<lparr>selectedUnit := Some u,
               movementRange := calculateMovementRange (grid st) u,
               gameStatus := SelectTileToMoveTo\<rparr>
          else if \<not> hasAttacked u \<and> attackRange u > 0 then
            st\<lparr>selectedUnit := Some u,
               attackTargets := calculateAttackRange (grid st) u,
               gameStatus := SelectEnemyToAttack\<rparr>
          else st\<lparr>selectedUnit := Some u\<rparr>)"

text \<open>
  \<open>moveUnit\<close>. \<open>[...grid]\<close> copies the outer array only, so the two assignments to
  \<open>.unit\<close> change the tiles that \<open>grid\<close> holds, and \<open>calculateAttackRange\<close>, which
  reads \<open>grid\<close>, sees the unit at its new place.
\<close>

definition moveUnit :: "GameState \<Rightarrow> Unit \<Rightarrow> int \<Rightarrow> int \<Rightarrow> GameState" where
  "moveUnit st u x y =
     (case position u of (oldX, oldY) \<Rightarrow>
        let g1 = setUnit (grid st) oldX oldY None;
            updatedUnit = u\<lparr>position := (x, y), hasMoved := True\<rparr>;
            g2 = setUnit g1 x y (Some updatedUnit);
            st1 = st\<lparr>grid := g2, selectedUnit := Some updatedUnit, movementRange := []\<rparr>
        in if attackRange updatedUnit > 0 then
             let newAttackRange = calculateAttackRange g2 updatedUnit in
             if length newAttackRange > 0 then
               st1\<lparr>attackTargets := newAttackRange, gameStatus := SelectEnemyToAttack\<rparr>
             else
               st1\<lparr>attackTargets := newAttackRange, gameStatus := NoEnemiesInRange,
                   selectedUnit := None\<rparr>
           else st1\<lparr>selectedUnit := None, gameStatus := SelectAnotherUnit\<rparr>)"

text \<open>The count \<open>unitsLeft[p]\<close> of the two loops at the end of \<open>attackUnit\<close>.\<close>

definition unitsLeft :: "Tile list list \<Rightarrow> Player \<Rightarrow> nat" where
  "unitsLeft g p =
     length [u. y \<leftarrow> [0 .. GRID_SIZE - 1], x \<leftarrow> [0 .. GRID_SIZE - 1],
                u \<leftarrow> (case unit (tileAt g x y) of None \<Rightarrow> [] | Some u \<Rightarrow> [u]),
                player u = p]"

text \<open>
  \<open>attackUnit\<close>. \<open>grid[y][x].unit!\<close> asserts a unit on the target tile; the handler
  calls \<open>attackUnit\<close> on tiles of the attack range only.
\<close>

definition attackUnit :: "GameState \<Rightarrow> Unit \<Rightarrow> int \<Rightarrow> int \<Rightarrow> GameState" where
  "attackUnit st attacker x y =
     (let defender = the (unit (tileAt (grid st) x y));
          terrain = terrain (tileAt (grid st) x y);
          damage = calculateDamage attacker defender terrain;
          updatedDefender = defender\<lparr>health := health defender - damage\<rparr>;
          updatedAttacker = attacker\<lparr>hasAttacked := True\<rparr>
      in case position attacker of (attackerX, attackerY) \<Rightarrow>
        let g1 = setUnit (grid st) attackerX attackerY (Some updatedAttacker);
            g2 = (if health updatedDefender \<le> 0 then setUnit g1 x y None
                  else setUnit g1 x y (Some updatedDefender));
            status = (if health updatedDefender \<le> 0 then Destroyed (unit_type defender)
                      else TookDamage (unit_type defender) damage)
        in st\<lparr>grid := g2, selectedUnit := None, attackTargets := [],
              gameStatus := (if unitsLeft g2 Red = 0 then Wins Blue
                             else if unitsLeft g2 Blue = 0 then Wins Red
                             else status)\<rparr>)"

definition endTurn :: "GameState \<Rightarrow> GameState" where
  "endTurn st =
     (let updatedGrid =
            map (map (\<lambda>tile.
              case unit tile of
                None \<Rightarrow> tile
              | Some u \<Rightarrow>
                  if player u = currentPlayer st
                  then tile\<lparr>unit := Some (u\<lparr>hasMoved := False, hasAttacked := False\<rparr>)\<rparr>
                  else tile)) (grid st);
          nextPlayer = (if currentPlayer st = Red then Blue else Red)
      in st\<lparr>grid := updatedGrid, currentPlayer := nextPlayer, selectedUnit := None,
            movementRange := [], attackTargets := [], gameStatus := PlayersTurn nextPlayer\<rparr>)"

definition ownUnitAt :: "GameState \<Rightarrow> int \<Rightarrow> int \<Rightarrow> bool" where
  "ownUnitAt st x y =
     (case unit (tileAt (grid st) x y) of
        None \<Rightarrow> False
      | Some u \<Rightarrow> player u = currentPlayer st)"

definition handleTileClick :: "GameState \<Rightarrow> int \<Rightarrow> int \<Rightarrow> GameState" where
  "handleTileClick st x y =
     (case selectedUnit st of
        None \<Rightarrow> if ownUnitAt st x y then handleUnitSelect st x y else st
      | Some su \<Rightarrow>
          if \<not> hasMoved su \<and> list_ex (\<lambda>(mx, my). mx = x \<and> my = y) (movementRange st) then
            moveUnit st su x y
          else if \<not> hasAttacked su \<and> list_ex (\<lambda>(ax, ay). ax = x \<and> ay = y) (attackTargets st) then
            attackUnit st su x y
          else if ownUnitAt st x y then handleUnitSelect st x y
          else st\<lparr>selectedUnit := None, movementRange := [], attackTargets := []\<rparr>)"

section \<open>Tactical Wars: the time-driven game (pages/Game2.tsx, component Game2)\<close>

text \<open>
  The names of this component that the first one uses already carry a \<open>2\<close>. A unit's
  \<open>type\<close> is never \<open>null\<close> in a grid (\<open>initializeGrid\<close> and \<open>buyUnit\<close> store one of
  the three kinds), so \<open>UnitType2\<close> has the three kinds only. \<open>hp\<close> is an integer: it
  starts at 100 and loses a \<open>Math.floor\<close> each time.
\<close>

datatype TerrainType2 = plain | forest | mountain | city | base
datatype UnitType2 = infantry | tank | artillery
datatype Player2 = P1 | P2

record Unit2 =
  type2 :: UnitType2
  player2 :: Player2
  hp :: int

record Tile2 =
  terrain2 :: TerrainType2
  unit2 :: "Unit2 option"
  owner2 :: "Player2 option"

record UnitStats =
  cost :: int
  movement :: int
  minRange :: int
  maxRange :: int
  attack2 :: int
  defense2 :: int

fun UNIT_STATS :: "UnitType2 \<Rightarrow> UnitStats" where
  "UNIT_STATS infantry =
     \<lparr>cost = 1000, movement = 3, minRange = 1, maxRange = 1, attack2 = 55, defense2 = 50\<rparr>"
| "UNIT_STATS tank =
     \<lparr>cost = 7000, movement = 6, minRange = 1, maxRange = 1, attack2 = 85, defense2 = 70\<rparr>"
| "UNIT_STATS artillery =
     \<lparr>cost = 6000, movement = 5, minRange = 2, maxRange = 3, attack2 = 90, defense2 = 40\<rparr>"

fun TERRAIN_DEFENSE :: "TerrainType2 \<Rightarrow> int" where
  "TERRAIN_DEFENSE plain = 0"
| "TERRAIN_DEFENSE forest = 20"
| "TERRAIN_DEFENSE mountain = 30"
| "TERRAIN_DEFENSE city = 30"
| "TERRAIN_DEFENSE base = 30"



definition gridSize_width :: int where
  "gridSize_width = 12"

definition gridSize_height :: int where
  "gridSize_height = 10"

text \<open>\<open>Array(gridSize.height).fill(null).map(() => Array(gridSize.width).fill(false))\<close>\<close>

definition falseGrid :: "bool list list" where
  "falseGrid = replicate (nat gridSize_height) (replicate (nat gridSize_width) False)"

subsection \<open>Action points\<close>

record State2 =
  grid2 :: "Tile2 list list"
  actionPoints :: "Player2 \<Rightarrow> int"
  selectedCell :: "(int \<times> int) option"
  validMoves :: "bool list list"
  validAttacks :: "bool list list"
  gold :: "Player2 \<Rightarrow> int"
  showBuyMenu :: bool
  buyMenuCell :: "(int \<times> int) option"
  currentPlayer2 :: Player2
  lastApRecovery :: "Player2 \<Rightarrow> int"
  timeUntilNextAP :: "Player2 \<Rightarrow> int"



subsection \<open>Movement and attack ranges\<close>

text \<open>
  The body of the loop over \<open>directions\<close> in \<open>calculateValidMoves\<close>: one neighbour of
  the tile \<open>current\<close>, acting on \<open>visited\<close> and \<open>queue\<close>.
\<close>

definition directions :: "(int \<times> int) list" where
  "directions = [(-1, 0), (1, 0), (0, -1), (0, 1)]"

definition visitNeighbour ::
  "Tile2 list list \<Rightarrow> Unit2 \<Rightarrow> int \<times> int \<times> int \<Rightarrow> int \<times> int \<Rightarrow>
   bool list list \<times> (int \<times> int \<times> int) list \<Rightarrow> bool list list \<times> (int \<times> int \<times> int) list" where
  "visitNeighbour g u current d vq =
     (case current of (cx, cy, movesLeft) \<Rightarrow>
      case d of (dx, dy) \<Rightarrow>
      case vq of (visited, queue) \<Rightarrow>
        let nx = cx + dx; ny = cy + dy in
        if nx \<ge> 0 \<and> nx < gridSize_width \<and> ny \<ge> 0 \<and> ny < gridSize_height
           \<and> \<not> at2 visited nx ny then
          let targetTile = at2 g nx ny in
          if (case unit2 targetTile of None \<Rightarrow> True | Some t \<Rightarrow> player2 t = player2 u) then
            let moveCost = (if terrain2 targetTile = mountain then 2 else 1);
                newMovesLeft = movesLeft - moveCost
            in if newMovesLeft \<ge> 0
               then (set2 visited nx ny True, queue @ [(nx, ny, newMovesLeft)])
               else (visited, queue)
          else (visited, queue)
        else (visited, queue))"

text \<open>
  The \<open>while (queue.length > 0)\<close> loop. The result is \<open>None\<close> when the loop does not
  come to an end.
\<close>

partial_function (option) movesLoop ::
  "Tile2 list list \<Rightarrow> Unit2 \<Rightarrow> (int \<times> int \<times> int) list \<Rightarrow> bool list list \<Rightarrow> bool list list
   \<Rightarrow> bool list list option" where
  "movesLoop g u queue visited moves =
     (case queue of
        [] \<Rightarrow> Some moves
      | current # rest \<Rightarrow>
          (case fold (visitNeighbour g u current) directions (visited, rest) of
             (visited', queue') \<Rightarrow>
               movesLoop g u queue' visited'
                 (set2 moves (fst current) (fst (snd current)) True)))"

declare movesLoop.simps [code]

definition calculateValidMoves :: "Tile2 list list \<Rightarrow> int \<Rightarrow> int \<Rightarrow> bool list list option" where
  "calculateValidMoves g x y =
     (case unit2 (at2 g x y) of
        None \<Rightarrow> Some falseGrid
      | Some u \<Rightarrow>
          movesLoop g u [(x, y, movement (UNIT_STATS (type2 u)))]
            (set2 falseGrid x y True) falseGrid)"

text \<open>
  The two loops of \<open>calculateValidAttacks\<close> over the board, for the statistics
  \<open>stats\<close> of the unit \<open>u\<close> at \<open>(x, y)\<close>.
\<close>

definition attackCell ::
  "UnitStats \<Rightarrow> Tile2 list list \<Rightarrow> Unit2 \<Rightarrow> int \<Rightarrow> int \<Rightarrow> int \<Rightarrow> int \<Rightarrow>
   bool list list \<Rightarrow> bool list list" where
  "attackCell stats g u x y ty tx attacks =
     (let distance = \<bar>tx - x\<bar> + \<bar>ty - y\<bar>;
          targetUnit = unit2 (at2 g tx ty)
      in if distance \<ge> minRange stats \<and> distance \<le> maxRange stats
            \<and> (case targetUnit of None \<Rightarrow> False | Some t \<Rightarrow> player2 t \<noteq> player2 u)
         then set2 attacks tx ty True
         else attacks)"

definition scanAttacks ::
  "UnitStats \<Rightarrow> Tile2 list list \<Rightarrow> Unit2 \<Rightarrow> int \<Rightarrow> int \<Rightarrow> bool list list" where
  "scanAttacks stats g u x y =
     fold (\<lambda>ty. fold (attackCell stats g u x y ty) [0 .. gridSize_width - 1])
       [0 .. gridSize_height - 1] falseGrid"

definition calculateValidAttacks :: "Tile2 list list \<Rightarrow> int \<Rightarrow> int \<Rightarrow> bool list list" where
  "calculateValidAttacks g x y =
     (case unit2 (at2 g x y) of
        None \<Rightarrow> falseGrid
      | Some u \<Rightarrow> scanAttacks (UNIT_STATS (type2 u)) g u x y)"

subsection \<open>Moving and attacking\<close>

text \<open>
  \<open>grid.map(row => row.map(cell => ...))\<close> copies every tile and unit, so \<open>moveUnit\<close>
  and \<open>performAttack\<close> work on values.
\<close>

definition setUnit2 :: "Tile2 list list \<Rightarrow> int \<Rightarrow> int \<Rightarrow> Unit2 option \<Rightarrow> Tile2 list list" where
  "setUnit2 g x y u = set2 g x y ((at2 g x y)\<lparr>unit2 := u\<rparr>)"

definition setOwner2 :: "Tile2 list list \<Rightarrow> int \<Rightarrow> int \<Rightarrow> Player2 option \<Rightarrow> Tile2 list list" where
  "setOwner2 g x y p = set2 g x y ((at2 g x y)\<lparr>owner2 := p\<rparr>)"

definition moveUnit2 :: "Tile2 list list \<Rightarrow> int \<Rightarrow> int \<Rightarrow> int \<Rightarrow> int \<Rightarrow> Tile2 list list" where
  "moveUnit2 g fromX fromY toX toY =
     (let u = the (unit2 (at2 g fromX fromY));
          g1 = setUnit2 g toX toY (Some u);
          g2 = setUnit2 g1 fromX fromY None
      in if terrain2 (at2 g2 toX toY) = city \<and> owner2 (at2 g2 toX toY) \<noteq> Some (player2 u)
         then setOwner2 g2 toX toY (Some (player2 u))
         else g2)"

text \<open>
  The arithmetic of \<open>performAttack\<close> is that of IEEE doubles, and \<open>Math.floor\<close> shows
  its rounding: \<open>90 * (96 / 100) - (70 * (64 / 100) * (1 + 0 / 100)) / 2\<close> is 64 in exact
  arithmetic and 63.999999999999986 in doubles. \<open>double q\<close> is the double nearest to the
  rational \<open>q\<close>, ties to the even mantissa: a mantissa of 53 bits, with the exponent
  \<open>binaryExponent q\<close>, the integer part of the binary logarithm of \<open>\<bar>q\<bar>\<close>, and no
  exponent below that of the subnormal numbers. Overflow is left out: the numbers of
  \<open>performAttack\<close> stay below 200. Each operation of the source is the exact operation
  followed by \<open>double\<close>.
\<close>

definition pow2 :: "int \<Rightarrow> rat" where
  "pow2 e = (if 0 \<le> e then 2 ^ nat e else 1 / 2 ^ nat (- e))"

definition roundHalfEven :: "rat \<Rightarrow> int" where
  "roundHalfEven q =
     (let f = \<lfloor>q\<rfloor>; r = q - of_int f in
      if r < 1 / 2 then f else if 1 / 2 < r then f + 1 else if even f then f else f + 1)"

definition binaryExponent :: "rat \<Rightarrow> int" where
  "binaryExponent q =
     (case quotient_of \<bar>q\<bar> of (n, d) \<Rightarrow>
        let e = bitlen n - bitlen d in if pow2 e \<le> \<bar>q\<bar> then e else e - 1)"

definition double :: "rat \<Rightarrow> rat" where
  "double q =
     (if q = 0 then 0
      else let e = max (binaryExponent q) (- 1022) - 52
           in of_int (roundHalfEven (q / pow2 e)) * pow2 e)"

definition attackDamage :: "Unit2 \<Rightarrow> Unit2 \<Rightarrow> TerrainType2 \<Rightarrow> int" where
  "attackDamage attacker defender t =
     (let attackerStats = UNIT_STATS (type2 attacker);
          defenderStats = UNIT_STATS (type2 defender);
          terrainDefense = TERRAIN_DEFENSE t
      in max 1 \<lfloor>double
           (double (of_int (attack2 attackerStats) * double (of_int (hp attacker) / 100))
            - double (double (double (of_int (defense2 defenderStats)
                                        * double (of_int (hp defender) / 100))
                              * double (1 + double (of_int terrainDefense / 100)))
                      / 2))\<rfloor>)"

definition performAttack :: "Tile2 list list \<Rightarrow> int \<Rightarrow> int \<Rightarrow> int \<Rightarrow> int \<Rightarrow> Tile2 list list" where
  "performAttack g fromX fromY toX toY =
     (let attacker = the (unit2 (at2 g fromX fromY));
          defender = the (unit2 (at2 g toX toY));
          damage = attackDamage attacker defender (terrain2 (at2 g toX toY));
          defender' = defender\<lparr>hp := max 0 (hp defender - damage)\<rparr>
      in if hp defender' \<le> 0 then setUnit2 g toX toY None
         else setUnit2 g toX toY (Some defender'))"

text \<open>
  \<open>handleCellClick\<close>. The last part of the handler, which selects the clicked unit, is
  \<open>selectClicked\<close>. The result is \<open>None\<close> when \<open>calculateValidMoves\<close> does not return.
\<close>

definition selectClicked :: "State2 \<Rightarrow> int \<Rightarrow> int \<Rightarrow> State2 option" where
  "selectClicked st x y =
     (if unit2 (at2 (grid2 st) x y) \<noteq> None then
        (case calculateValidMoves (grid2 st) x y of
           None \<Rightarrow> None
         | Some m \<Rightarrow>
             Some (st\<lparr>selectedCell := Some (x, y), validMoves := m,
                      validAttacks := calculateValidAttacks (grid2 st) x y\<rparr>))
      else Some st)"

definition handleCellClick :: "State2 \<Rightarrow> int \<Rightarrow> int \<Rightarrow> State2 option" where
  "handleCellClick st x y =
     (let clickedTile = at2 (grid2 st) x y; cp = currentPlayer2 st in
      if showBuyMenu st then Some (st\<lparr>showBuyMenu := False, buyMenuCell := None\<rparr>)
      else if terrain2 clickedTile = base \<and> owner2 clickedTile = Some cp
              \<and> unit2 clickedTile = None then
        Some (st\<lparr>showBuyMenu := True, buyMenuCell := Some (x, y)\<rparr>)
      else
        (case selectedCell st of
           None \<Rightarrow> selectClicked st x y
         | Some (sx, sy) \<Rightarrow>
             let selectedUnit = unit2 (at2 (grid2 st) sx sy);
                 cleared = (\<lambda>s. s\<lparr>selectedCell := None, validMoves := [], validAttacks := []\<rparr>)
             in if at2 (validMoves st) x y \<and> unit2 clickedTile = None
                   \<and> map_option player2 selectedUnit = Some cp then
                  Some (cleared
                    (if actionPoints st cp \<ge> 1
                     then st\<lparr>grid2 := moveUnit2 (grid2 st) sx sy x y,
                             actionPoints := (actionPoints st)(cp := actionPoints st cp - 1)\<rparr>
                     else st))
                else if at2 (validAttacks st) x y
                        \<and> map_option player2 selectedUnit = Some cp then
                  Some (cleared
                    (if actionPoints st cp \<ge> 1
                     then st\<lparr>grid2 := performAttack (grid2 st) sx sy x y,
                             actionPoints := (actionPoints st)(cp := actionPoints st cp - 1)\<rparr>
                     else st))
                else selectClicked (cleared st) x y))"

section \<open>The 20 x 20 game with cities (pages/Game2.tsx, component Game)\<close>

text \<open>
  The second component of the file has the types and the handlers of \<open>Game.tsx\<close>
  (\<open>Unit\<close>, \<open>Player\<close> and \<open>UnitType\<close> are used as they are) and adds cities. A tile's
  terrain is declared a \<open>Terrain\<close>, now with the optional flag \<open>isCity\<close>, and is read
  through the unchecked cast \<open>tile.terrain as City\<close>, so the fields \<open>owner\<close> and
  \<open>captureProgress\<close> of \<open>City\<close> can be missing. The record \<open>CityTerrain\<close> has all
  the fields:
  \<^item> \<open>isCity\<close> is \<open>False\<close> when the flag is missing (it is only tested for truth);
  \<^item> \<open>owner\<close> is \<open>None\<close> for \<open>null\<close> and for a missing field (it is only tested for
    truth and compared with a player);
  \<^item> \<open>captureProgress\<close> is \<open>None\<close> when the field is missing or holds \<open>NaN\<close>:
    \<open>undefined + 50\<close> and \<open>NaN + 50\<close> are \<open>NaN\<close>, and \<open>NaN >= 100\<close> is false.
\<close>

record CityTerrain =
  terrain_type3 :: TerrainType
  defenseBonus3 :: rat
  movementCost3 :: rat
  isCity :: bool
  owner :: "Player option"
  captureProgress :: "int option"

record Tile3 =
  tile_position3 :: "int \<times> int"
  terrain3 :: CityTerrain
  unit3 :: "Unit option"

text \<open>
  \<open>TERRAIN_TYPES\<close> of this component: the entry \<open>City\<close> has \<open>isCity: true\<close> and neither
  \<open>owner\<close> nor \<open>captureProgress\<close>. \<open>generateInitialGrid\<close> stores these entries in the
  tiles, and \<open>initializeGame\<close> puts the units on that grid.
\<close>

fun TERRAIN_TYPES3 :: "TerrainType \<Rightarrow> CityTerrain" where
  "TERRAIN_TYPES3 Plain =
     \<lparr>terrain_type3 = Plain, defenseBonus3 = 0, movementCost3 = 1,
      isCity = False, owner = None, captureProgress = None\<rparr>"
| "TERRAIN_TYPES3 Mountain =
     \<lparr>terrain_type3 = Mountain, defenseBonus3 = 30, movementCost3 = 3,
      isCity = False, owner = None, captureProgress = None\<rparr>"
| "TERRAIN_TYPES3 Forest =
     \<lparr>terrain_type3 = Forest, defenseBonus3 = 10, movementCost3 = 2,
      isCity = False, owner = None, captureProgress = None\<rparr>"
| "TERRAIN_TYPES3 City =
     \<lparr>terrain_type3 = City, defenseBonus3 = 20, movementCost3 = 1,
      isCity = True, owner = None, captureProgress = None\<rparr>"
| "TERRAIN_TYPES3 Road =
     \<lparr>terrain_type3 = Road, defenseBonus3 = 0, movementCost3 = 1 / 2,
      isCity = False, owner = None, captureProgress = None\<rparr>"

text \<open>
  \<open>initializeGrid\<close>, on the grid \<open>g\<close> that its call of \<open>generateInitialGrid\<close>
  returns. The first pair of loops gives every city \<open>owner: null\<close> and
  \<open>captureProgress: 0\<close>. The second pair gives the first city of the rows 0 to 2 to Red
  and the first city of the last three rows to Blue; the condition of its outer loop and
  the \<open>break\<close> of its inner loop end the scan once both are given, and \<open>assignOwner\<close>
  leaves the remaining tiles as they are instead. The component defines
  \<open>initializeGrid\<close> and never calls it.
\<close>

definition GRID_SIZE3 :: int where
  "GRID_SIZE3 = 20"

definition setTerrain3 :: "Tile3 list list \<Rightarrow> int \<Rightarrow> int \<Rightarrow> CityTerrain \<Rightarrow> Tile3 list list" where
  "setTerrain3 g x y c = set2 g x y ((at2 g x y)\<lparr>terrain3 := c\<rparr>)"

definition addCityFields :: "int \<Rightarrow> int \<Rightarrow> Tile3 list list \<Rightarrow> Tile3 list list" where
  "addCityFields y x g =
     (if terrain_type3 (terrain3 (at2 g x y)) = City
      then setTerrain3 g x y ((terrain3 (at2 g x y))\<lparr>owner := None, captureProgress := Some 0\<rparr>)
      else g)"

definition assignOwner ::
  "int \<Rightarrow> int \<Rightarrow> Tile3 list list \<times> bool \<times> bool \<Rightarrow> Tile3 list list \<times> bool \<times> bool" where
  "assignOwner y x s =
     (case s of (g, redCityAssigned, blueCityAssigned) \<Rightarrow>
        if redCityAssigned \<and> blueCityAssigned then s
        else if terrain_type3 (terrain3 (at2 g x y)) = City then
          if \<not> redCityAssigned \<and> y < 3 then
            (setTerrain3 g x y ((terrain3 (at2 g x y))\<lparr>owner := Some Red\<rparr>),
             True, blueCityAssigned)
          else if \<not> blueCityAssigned \<and> y \<ge> GRID_SIZE3 - 3 then
            (setTerrain3 g x y ((terrain3 (at2 g x y))\<lparr>owner := Some Blue\<rparr>),
             redCityAssigned, True)
          else s
        else s)"

definition initializeGrid :: "Tile3 list list \<Rightarrow> Tile3 list list" where
  "initializeGrid g =
     fst (fold (\<lambda>y. fold (assignOwner y) [0 .. GRID_SIZE3 - 1]) [0 .. GRID_SIZE3 - 1]
            (fold (\<lambda>y. fold (addCityFields y) [0 .. GRID_SIZE3 - 1]) [0 .. GRID_SIZE3 - 1] g,
             False, False))"

text \<open>
  The status line of this component: a status of \<open>Game.tsx\<close>, or
  \<open>CapturedCity p\<close> for `${p} captured a city!`, or \<open>Capturing n\<close> for
  `Capturing: ${n}%`.
\<close>

datatype GameStatus3 = Status GameStatus | CapturedCity Player | Capturing "int option"

text \<open>The hooks that \<open>captureCity\<close> reads and sets.\<close>

record GameState3 =
  grid3 :: "Tile3 list list"
  selectedUnit3 :: "Unit option"
  gameStatus3 :: GameStatus3

definition setUnit3 :: "Tile3 list list \<Rightarrow> int \<Rightarrow> int \<Rightarrow> Unit option \<Rightarrow> Tile3 list list" where
  "setUnit3 g x y u = set2 g x y ((at2 g x y)\<lparr>unit3 := u\<rparr>)"

text \<open>
  \<open>captureCity\<close> returns its boolean and the state. \<open>city\<close> is the object that the
  tile holds, so \<open>city.captureProgress = 0\<close> and \<open>+=\<close> write into the grid at once,
  also on the path that returns \<open>false\<close> without \<open>setGrid\<close>.
\<close>

definition captureCity :: "GameState3 \<Rightarrow> Unit \<Rightarrow> int \<Rightarrow> int \<Rightarrow> bool \<times> GameState3" where
  "captureCity st u x y =
     (let tile = at2 (grid3 st) x y in
      if \<not> isCity (terrain3 tile) then (False, st)
      else
        let city = terrain3 tile;
            city1 = (if owner city \<noteq> None \<and> owner city \<noteq> Some (player u)
                     then city\<lparr>captureProgress := Some 0\<rparr> else city);
            captureAmount = (if unit_type u = Infantry then 50 else 0 :: int)
        in if captureAmount > 0 then
             let city2 = city1\<lparr>captureProgress :=
                            map_option (\<lambda>n. n + captureAmount) (captureProgress city1)\<rparr>;
                 full = (case captureProgress city2 of None \<Rightarrow> False | Some n \<Rightarrow> n \<ge> 100);
                 city3 = (if full then city2\<lparr>owner := Some (player u), captureProgress := Some 0\<rparr>
                          else city2);
                 updatedUnit = u\<lparr>hasAttacked := True\<rparr>
             in (True,
                 st\<lparr>grid3 := setUnit3 (setTerrain3 (grid3 st) x y city3) x y (Some updatedUnit),
                    selectedUnit3 := Some updatedUnit,
                    gameStatus3 := (if full then CapturedCity (player u)
                                    else Capturing (captureProgress city2))\<rparr>)
           else (False, st\<lparr>grid3 := setTerrain3 (grid3 st) x y city1\<rparr>))"

text \<open>
  The first statement of \<open>handleTileClick\<close> of this component. The boolean tells
  whether the handler has returned there; when it is \<open>False\<close> the handler goes on, as in
  \<open>Game.tsx\<close>, from the state given.
\<close>

definition handleTileClick_capture :: "GameState3 \<Rightarrow> int \<Rightarrow> int \<Rightarrow> bool \<times> GameState3" where
  "handleTileClick_capture st x y =
     (case selectedUnit3 st of
        None \<Rightarrow> (False, st)
      | Some su \<Rightarrow>
          if \<not> hasAttacked su \<and> fst (position su) = x \<and> snd (position su) = y
             \<and> isCity (terrain3 (at2 (grid3 st) x y)) then
            let city = terrain3 (at2 (grid3 st) x y) in
            if owner city = None \<or> owner city \<noteq> Some (player su)
            then captureCity st su x y
            else (False, st)
          else (False, st))"

section \<open>Boards of the right shape, and boards for the examples\<close>

definition inBounds :: "int \<Rightarrow> int \<Rightarrow> bool" where
  "inBounds x y = (0 \<le> x \<and> x < GRID_SIZE \<and> 0 \<le> y \<and> y < GRID_SIZE)"


definition inBounds2 :: "int \<Rightarrow> int \<Rightarrow> bool" where
  "inBounds2 x y = (0 \<le> x \<and> x < gridSize_width \<and> 0 \<le> y \<and> y < gridSize_height)"

definition wfGrid2 :: "Tile2 list list \<Rightarrow> bool" where
  "wfGrid2 g = rect (nat gridSize_height) (nat gridSize_width) g"

text \<open>
  A board of \<open>Game.tsx\<close> with plains only, a Red Infantry at \<open>(1, 0)\<close> (where
  \<open>initializeGame\<close> puts it) and next to it, at \<open>(1, 1)\<close>, the last Blue unit, an
  Infantry with 40 health left.
\<close>

definition plainGrid :: "Tile list list" where
  "plainGrid =
     map (\<lambda>y. map (\<lambda>x. \<lparr>tile_position = (x, y), terrain = TERRAIN_TYPES Plain, unit = None\<rparr>)
                 [0 .. 9]) [0 .. 9]"

definition redInfantry :: Unit where
  "redInfantry = createUnit ''r1'' Infantry (1, 0) Red"

definition blueInfantry :: Unit where
  "blueInfantry = (createUnit ''b1'' Infantry (1, 1) Blue)\<lparr>health := 40\<rparr>"

definition duelState :: GameState where
  "duelState =
     \<lparr>grid = setUnit (setUnit plainGrid 1 0 (Some redInfantry)) 1 1 (Some blueInfantry),
      selectedUnit = None, currentPlayer = Red, movementRange = [], attackTargets = [],
      gameStatus = SelectUnitToMove\<rparr>"

text \<open>
  The board that \<open>initializeGrid\<close> of \<open>Game2\<close> makes when no draw of \<open>Math.random()\<close>
  gives a forest or a mountain, and the state of the hooks after it (\<open>t\<close> is the value
  of \<open>Date.now()\<close> at the start).
\<close>

definition initialTile2 :: "int \<Rightarrow> int \<Rightarrow> Tile2" where
  "initialTile2 x y =
     \<lparr>terrain2 = (if (x = 4 \<and> y = 4) \<or> (x = 7 \<and> y = 5) then city
                  else if (x = 2 \<and> y = 2) \<or> (x = 9 \<and> y = 7) then base
                  else plain),
      unit2 = (if x = 2 \<and> y = 2 then Some \<lparr>type2 = infantry, player2 = P1, hp = 100\<rparr>
               else if x = 9 \<and> y = 7 then Some \<lparr>type2 = infantry, player2 = P2, hp = 100\<rparr>
               else None),
      owner2 = (if (x = 2 \<and> y = 2) \<or> (x = 9 \<and> y = 7)
                then Some (if x = 2 then P1 else P2) else None)\<rparr>"

definition initialGrid2 :: "Tile2 list list" where
  "initialGrid2 = map (\<lambda>y. map (\<lambda>x. initialTile2 x y) [0 .. 11]) [0 .. 9]"

definition initialState2 :: "int \<Rightarrow> State2" where
  "initialState2 t =
     \<lparr>grid2 = initialGrid2, actionPoints = (\<lambda>p. 10), selectedCell = None,
      validMoves = [], validAttacks = [], gold = (\<lambda>p. 10000), showBuyMenu = False,
      buyMenuCell = None, currentPlayer2 = P1, lastApRecovery = (\<lambda>p. t),
      timeUntilNextAP = (\<lambda>p. 60)\<rparr>"

text \<open>
  The same board later in a game: the Infantry of player 2 stands at \<open>(3, 2)\<close>, next to
  the Infantry of player 1. And a board where player 1 has an Artillery at \<open>(2, 2)\<close> and
  player 2 has Infantry at \<open>(2, 3)\<close>, \<open>(2, 4)\<close> and \<open>(2, 6)\<close>.
\<close>

definition duelGrid2 :: "Tile2 list list" where
  "duelGrid2 =
     setUnit2 (setUnit2 initialGrid2 9 7 None) 3 2
       (Some \<lparr>type2 = infantry, player2 = P2, hp = 100\<rparr>)"

definition artilleryGrid2 :: "Tile2 list list" where
  "artilleryGrid2 =
     (let enemy = Some \<lparr>type2 = infantry, player2 = P2, hp = 100\<rparr> in
      setUnit2 (setUnit2 (setUnit2 (setUnit2 initialGrid2 2 2
        (Some \<lparr>type2 = artillery, player2 = P1, hp = 100\<rparr>)) 2 3 enemy) 2 4 enemy) 2 6 enemy)"

text \<open>The first board of \<open>Game2\<close> with a Tank of player 1 at \<open>(2, 2)\<close>.\<close>

definition tankGrid2 :: "Tile2 list list" where
  "tankGrid2 = setUnit2 initialGrid2 2 2 (Some \<lparr>type2 = tank, player2 = P1, hp = 100\<rparr>)"


text \<open>
  Three clicks on the board of \<open>duelState\<close>: on the Red Infantry, on the free tile
  \<open>(0, 1)\<close> next to the Blue unit, and on the Blue unit. Then two clicks on "End Turn"
  and a click on the Red Infantry.
\<close>

definition movedState :: GameState where
  "movedState = handleTileClick (handleTileClick duelState 1 0) 0 1"

definition wonState :: GameState where
  "wonState = handleTileClick movedState 1 1"

definition afterWinState :: GameState where
  "afterWinState = handleTileClick (endTurn (endTurn wonState)) 0 1"

text \<open>
  The state of \<open>Game2\<close> on the board \<open>duelGrid2\<close>, and four clicks there: on the
  Infantry of player 1, on the Infantry of player 2 next to it, and the same two again.
\<close>

definition duelState2 :: State2 where
  "duelState2 = (initialState2 0)\<lparr>grid2 := duelGrid2\<rparr>"



text \<open>
  A board of the component with cities as \<open>initializeGame\<close> makes it: 20 rows of 20
  tiles that hold entries of \<open>TERRAIN_TYPES\<close>, here plains and a city at \<open>(4, 1)\<close>,
  where \<open>initializeGame\<close> puts a Red Infantry. In \<open>cityState3\<close> that Infantry is
  selected. \<open>firstCapture3\<close> is the click on its tile, and \<open>secondCapture3\<close> is the
  capture in Red's next turn, when \<open>endTurn\<close> has reset \<open>hasAttacked\<close>.
\<close>

definition cityInfantry3 :: Unit where
  "cityInfantry3 = createUnit ''r4'' Infantry (4, 1) Red"

definition cityGrid3 :: "Tile3 list list" where
  "cityGrid3 =
     map (\<lambda>y. map (\<lambda>x.
            \<lparr>tile_position3 = (x, y),
             terrain3 = TERRAIN_TYPES3 (if x = 4 \<and> y = 1 then City else Plain),
             unit3 = (if x = 4 \<and> y = 1 then Some cityInfantry3 else None)\<rparr>)
          [0 .. 19]) [0 .. 19]"

definition cityState3 :: GameState3 where
  "cityState3 =
     \<lparr>grid3 = cityGrid3, selectedUnit3 = Some cityInfantry3,
      gameStatus3 = Status SelectTileToMoveTo\<rparr>"

definition firstCapture3 :: "bool \<times> GameState3" where
  "firstCapture3 = handleTileClick_capture cityState3 4 1"

definition secondCapture3 :: "bool \<times> GameState3" where
  "secondCapture3 = captureCity (snd firstCapture3) cityInfantry3 4 1"

text \<open>
  A board with two cities in the second row, at \<open>(2, 1)\<close> and \<open>(4, 1)\<close>, as
  \<open>initializeGrid\<close> would have made it: the city at \<open>(2, 1)\<close> is Red's and the city at
  \<open>(4, 1)\<close>, where the Red Infantry stands, has no owner and the progress 0. Then the
  same two captures as above.
\<close>

definition twoCityGrid3 :: "Tile3 list list" where
  "twoCityGrid3 = setTerrain3 cityGrid3 2 1 (TERRAIN_TYPES3 City)"

definition initialisedState3 :: GameState3 where
  "initialisedState3 = cityState3\<lparr>grid3 := initializeGrid twoCityGrid3\<rparr>"

definition firstCaptureInitialised3 :: "bool \<times> GameState3" where
  "firstCaptureInitialised3 = handleTileClick_capture initialisedState3 4 1"

definition secondCaptureInitialised3 :: "bool \<times> GameState3" where
  "secondCaptureInitialised3 = captureCity (snd firstCaptureInitialised3) cityInfantry3 4 1"

text \<open>The hooks of \<open>Game.tsx\<close> other than the status line.\<close>

definition sameHooks :: "GameState \<Rightarrow> GameState \<Rightarrow> bool" where
  "sameHooks s t =
     (grid s = grid t \<and> selectedUnit s = selectedUnit t \<and> currentPlayer s = currentPlayer t
      \<and> movementRange s = movementRange t \<and> attackTargets s = attackTargets t)"

section \<open>The search of calculateValidMoves, in words\<close>

text \<open>
  The notions that the statements about \<open>calculateValidMoves\<close> use. A tile is
  \<open>marked\<close> in a boolean map when it is on the board and the map holds \<open>true\<close> for it.
  A tile can be entered (\<open>passable\<close>) by the unit \<open>u\<close> when it is on the board and holds
  no unit or a unit of the player of \<open>u\<close>. Entering a tile costs 2 on a mountain and 1
  elsewhere. The \<open>neighbours\<close> of a tile are the four tiles in the \<open>directions\<close>. A
  \<open>walk\<close> from a tile is a list of tiles, each a neighbour of the one before and each
  passable.
\<close>

definition marked :: "bool list list \<Rightarrow> int \<times> int \<Rightarrow> bool" where
  "marked m p = (inBounds2 (fst p) (snd p) \<and> at2 m (fst p) (snd p))"

definition passable :: "Tile2 list list \<Rightarrow> Unit2 \<Rightarrow> int \<times> int \<Rightarrow> bool" where
  "passable g u p =
     (inBounds2 (fst p) (snd p)
      \<and> (case unit2 (at2 g (fst p) (snd p)) of None \<Rightarrow> True | Some t \<Rightarrow> player2 t = player2 u))"

definition stepCost :: "Tile2 list list \<Rightarrow> int \<times> int \<Rightarrow> int" where
  "stepCost g p = (if terrain2 (at2 g (fst p) (snd p)) = mountain then 2 else 1)"

definition neighbours :: "int \<times> int \<Rightarrow> (int \<times> int) list" where
  "neighbours p = map (\<lambda>d. (fst p + fst d, snd p + snd d)) directions"

fun walk :: "Tile2 list list \<Rightarrow> Unit2 \<Rightarrow> int \<times> int \<Rightarrow> (int \<times> int) list \<Rightarrow> bool" where
  "walk g u p [] = True"
| "walk g u p (q # qs) = (q \<in> set (neighbours p) \<and> passable g u q \<and> walk g u q qs)"

text \<open>
  The search as the specification words it, to compare \<open>calculateValidMoves\<close> with:
  a breadth-first search from the tile of the unit. The queue holds tiles with the cost
  of the path that brought them there, and is served first in, first out. A neighbour of
  the tile taken from the queue is put into the queue when it is passable (on the board,
  and free or held by the unit's own player), not yet visited, and the cost so far plus
  the cost of entering it is within the budget. \<open>reachableTiles\<close> lists the tiles in the
  order in which they leave the queue.
\<close>

definition enqueueNeighbour ::
  "Tile2 list list \<Rightarrow> Unit2 \<Rightarrow> int \<Rightarrow> int \<Rightarrow> int \<times> int \<Rightarrow>
   (int \<times> int) list \<times> ((int \<times> int) \<times> int) list \<Rightarrow>
   (int \<times> int) list \<times> ((int \<times> int) \<times> int) list" where
  "enqueueNeighbour g u budget spent n vq =
     (case vq of (visited, queue) \<Rightarrow>
        if passable g u n \<and> n \<notin> set visited \<and> spent + stepCost g n \<le> budget
        then (n # visited, queue @ [(n, spent + stepCost g n)])
        else (visited, queue))"

partial_function (option) breadthFirst ::
  "Tile2 list list \<Rightarrow> Unit2 \<Rightarrow> int \<Rightarrow> ((int \<times> int) \<times> int) list \<Rightarrow> (int \<times> int) list \<Rightarrow>
   (int \<times> int) list \<Rightarrow> (int \<times> int) list option" where
  "breadthFirst g u budget queue visited reached =
     (case queue of
        [] \<Rightarrow> Some reached
      | entry # rest \<Rightarrow>
          (case fold (enqueueNeighbour g u budget (snd entry)) (neighbours (fst entry))
                  (visited, rest) of
             (visited', queue') \<Rightarrow>
               breadthFirst g u budget queue' visited' (reached @ [fst entry])))"

declare breadthFirst.simps [code]

definition reachableTiles :: "Tile2 list list \<Rightarrow> Unit2 \<Rightarrow> int \<times> int \<Rightarrow> (int \<times> int) list option" where
  "reachableTiles g u p =
     breadthFirst g u (movement (UNIT_STATS (type2 u))) [(p, 0)] [p] []"

text \<open>
  The invariant of the loop, for the proofs. \<open>V\<close> are the tiles marked in \<open>visited\<close>,
  \<open>M\<close> those marked in \<open>moves\<close>, \<open>C\<close> those of \<open>M\<close> whose neighbours have all been
  looked at, \<open>Q\<close> is the queue, and \<open>left\<close> gives the \<open>movesLeft\<close> with which a visited
  tile was put into the queue.
\<close>

definition qpos :: "int \<times> int \<times> int \<Rightarrow> int \<times> int" where
  "qpos q = (fst q, fst (snd q))"

definition treeInv ::
  "Tile2 list list \<Rightarrow> Unit2 \<Rightarrow> int \<times> int \<Rightarrow> int \<Rightarrow> (int \<times> int) set \<Rightarrow> (int \<times> int) set \<Rightarrow>
   (int \<times> int) set \<Rightarrow> (int \<times> int \<times> int) list \<Rightarrow> (int \<times> int \<Rightarrow> int) \<Rightarrow> bool" where
  "treeInv g u orig mv C M V Q left =
     (distinct (map qpos Q)
      \<and> (\<forall>q \<in> set Q. qpos q \<in> V \<and> qpos q \<notin> M \<and> left (qpos q) = snd (snd q))
      \<and> V - M \<subseteq> qpos ` set Q
      \<and> M \<subseteq> V \<and> C \<subseteq> M
      \<and> orig \<in> V \<and> left orig = mv
      \<and> (\<forall>t \<in> V. left t \<le> mv)
      \<and> (\<forall>t \<in> V. t \<noteq> orig \<longrightarrow>
            passable g u t \<and> 0 \<le> left t
            \<and> (\<exists>c \<in> M. t \<in> set (neighbours c) \<and> left t = left c - stepCost g t))
      \<and> (\<forall>c \<in> C. \<forall>n \<in> set (neighbours c).
            passable g u n \<and> 0 \<le> left c - stepCost g n \<longrightarrow> n \<in> V))"

definition markedSet :: "bool list list \<Rightarrow> (int \<times> int) set" where
  "markedSet m = {p. marked m p}"

definition unvisited :: "bool list list \<Rightarrow> (int \<times> int) set" where
  "unvisited v = {p. inBounds2 (fst p) (snd p) \<and> \<not> at2 v (fst p) (snd p)}"



text \<open>The queue of \<open>breadthFirst\<close> that stands for a queue of \<open>movesLoop\<close>.\<close>

definition costQueue :: "int \<Rightarrow> (int \<times> int \<times> int) list \<Rightarrow> ((int \<times> int) \<times> int) list" where
  "costQueue budget Q = map (\<lambda>q. (qpos q, budget - snd (snd q))) Q"


section \<open>Facts about arrays of rows\<close>

lemma rect_set2: "rect h w a \<Longrightarrow> rect h w (set2 a x y v)"
proof (cases "nat y < length a")
  case True
  assume "rect h w a"
  with True show ?thesis
    by (auto simp: rect_def set2_def list_all_length nth_list_update)
next
  case False
  then have "a[nat y := (a ! nat y)[nat x := v]] = a"
    by (simp add: list_update_beyond)
  moreover assume "rect h w a"
  ultimately show ?thesis
    by (simp add: set2_def)
qed

lemma at2_set2:
  assumes "rect h w a" "0 \<le> x" "nat x < w" "0 \<le> y" "nat y < h" "0 \<le> x'" "0 \<le> y'"
  shows "at2 (set2 a x y v) x' y' = (if x' = x \<and> y' = y then v else at2 a x' y')"
proof -
  have l: "nat y < length a" "nat x < length (a ! nat y)"
    using assms by (auto simp: rect_def list_all_length)
  have e: "nat x' = nat x \<longleftrightarrow> x' = x" "nat y' = nat y \<longleftrightarrow> y' = y"
    using assms by auto
  show ?thesis
  proof (cases "y' = y")
    case True
    with l e show ?thesis
      by (cases "x' = x") (simp_all add: at2_def set2_def)
  next
    case False
    with l e show ?thesis
      by (simp add: at2_def set2_def nth_list_update)
  qed
qed

lemma rect_falseGrid: "rect (nat gridSize_height) (nat gridSize_width) falseGrid"
  by (simp add: rect_def falseGrid_def list_all_length)

lemma at2_falseGrid: "inBounds2 x y \<Longrightarrow> at2 falseGrid x y = False"
  by (simp add: at2_def falseGrid_def inBounds2_def)

lemma inBounds2_nat:
  "inBounds2 x y \<Longrightarrow> 0 \<le> x \<and> nat x < nat gridSize_width \<and> 0 \<le> y \<and> nat y < nat gridSize_height"
  by (auto simp: inBounds2_def)


section \<open>Facts about the attack ranges\<close>

lemma fold_attackCell:
  assumes "rect (nat gridSize_height) (nat gridSize_width) a"
      and "0 \<le> ty" "nat ty < nat gridSize_height"
      and "\<forall>tx \<in> set xs. 0 \<le> tx \<and> nat tx < nat gridSize_width"
      and "0 \<le> x'" "0 \<le> y'"
  shows "rect (nat gridSize_height) (nat gridSize_width) (fold (attackCell stats g u x y ty) xs a)
       \<and> (at2 (fold (attackCell stats g u x y ty) xs a) x' y' \<longleftrightarrow>
            at2 a x' y' \<or>
            (y' = ty \<and> x' \<in> set xs
             \<and> minRange stats \<le> \<bar>x' - x\<bar> + \<bar>y' - y\<bar> \<and> \<bar>x' - x\<bar> + \<bar>y' - y\<bar> \<le> maxRange stats
             \<and> (\<exists>t. unit2 (at2 g x' y') = Some t \<and> player2 t \<noteq> player2 u)))"
  using assms(1,4)
proof (induction xs arbitrary: a)
  case Nil
  then show ?case by simp
next
  case (Cons tx xs)
  let ?a = "attackCell stats g u x y ty tx a"
  have tx: "0 \<le> tx" "nat tx < nat gridSize_width"
    using Cons.prems(2) by auto
  have r: "rect (nat gridSize_height) (nat gridSize_width) ?a"
    using Cons.prems(1) by (simp add: attackCell_def Let_def rect_set2)
  have c: "at2 ?a x' y' \<longleftrightarrow>
            at2 a x' y' \<or>
            (y' = ty \<and> x' = tx
             \<and> minRange stats \<le> \<bar>x' - x\<bar> + \<bar>y' - y\<bar> \<and> \<bar>x' - x\<bar> + \<bar>y' - y\<bar> \<le> maxRange stats
             \<and> (\<exists>t. unit2 (at2 g x' y') = Some t \<and> player2 t \<noteq> player2 u))"
    using at2_set2[OF Cons.prems(1) tx(1) tx(2) assms(2) assms(3) assms(5) assms(6)]
    by (auto simp: attackCell_def Let_def split: option.splits)
  from Cons.IH[OF r] Cons.prems(2) c show ?case
    by auto
qed

lemma upto_bounds: "\<forall>i \<in> set [0 .. n - 1]. 0 \<le> i \<and> nat i < nat n"
  by auto

lemma fold_rows:
  assumes "rect (nat gridSize_height) (nat gridSize_width) a"
      and "\<forall>ty \<in> set ys. 0 \<le> ty \<and> nat ty < nat gridSize_height"
      and "0 \<le> x'" "0 \<le> y'"
  shows "rect (nat gridSize_height) (nat gridSize_width)
           (fold (\<lambda>ty. fold (attackCell stats g u x y ty) [0 .. gridSize_width - 1]) ys a)
       \<and> (at2 (fold (\<lambda>ty. fold (attackCell stats g u x y ty) [0 .. gridSize_width - 1]) ys a) x' y'
            \<longleftrightarrow>
            at2 a x' y' \<or>
            (y' \<in> set ys \<and> x' \<in> set [0 .. gridSize_width - 1]
             \<and> minRange stats \<le> \<bar>x' - x\<bar> + \<bar>y' - y\<bar> \<and> \<bar>x' - x\<bar> + \<bar>y' - y\<bar> \<le> maxRange stats
             \<and> (\<exists>t. unit2 (at2 g x' y') = Some t \<and> player2 t \<noteq> player2 u)))"
  using assms(1,2)
proof (induction ys arbitrary: a)
  case Nil
  then show ?case by simp
next
  case (Cons ty ys)
  have ty: "0 \<le> ty" "nat ty < nat gridSize_height"
    using Cons.prems(2) by auto
  note row = fold_attackCell[OF Cons.prems(1) ty upto_bounds assms(3) assms(4),
      of stats g u x y]
  from Cons.IH[OF conjunct1[OF row]] Cons.prems(2) conjunct2[OF row] show ?case
    by auto
qed

lemma scanAttacks_iff:
  assumes "inBounds2 tx ty"
  shows "at2 (scanAttacks stats g u x y) tx ty \<longleftrightarrow>
           minRange stats \<le> \<bar>tx - x\<bar> + \<bar>ty - y\<bar> \<and> \<bar>tx - x\<bar> + \<bar>ty - y\<bar> \<le> maxRange stats
           \<and> (\<exists>t. unit2 (at2 g tx ty) = Some t \<and> player2 t \<noteq> player2 u)"
proof -
  have b: "0 \<le> tx" "0 \<le> ty" "tx \<in> set [0 .. gridSize_width - 1]"
    "ty \<in> set [0 .. gridSize_height - 1]"
    using assms by (auto simp: inBounds2_def)
  from conjunct2[OF fold_rows[OF rect_falseGrid upto_bounds b(1) b(2), of stats g u x y]]
    at2_falseGrid[OF assms] b(3,4)
  show ?thesis
    unfolding scanAttacks_def by blast
qed

lemma calculateAttackRange_iff:
  assumes "position v = (x, y)"
  shows "(tx, ty) \<in> set (calculateAttackRange g v) \<longleftrightarrow>
           inBounds tx ty \<and> \<bar>tx - x\<bar> + \<bar>ty - y\<bar> \<le> attackRange v
           \<and> (\<exists>t. unit (tileAt g tx ty) = Some t \<and> player t \<noteq> player v)"
proof -
  let ?r = "attackRange v"
  have mem: "(tx, ty) \<in> set (calculateAttackRange g v) \<longleftrightarrow>
    (\<exists>dx dy. - ?r \<le> dx \<and> dx \<le> ?r \<and> - ?r \<le> dy \<and> dy \<le> ?r
       \<and> inBounds (x + dx) (y + dy)
       \<and> (\<exists>t. unit (tileAt g (x + dx) (y + dy)) = Some t \<and> player t \<noteq> player v)
       \<and> \<bar>dx\<bar> + \<bar>dy\<bar> \<le> ?r \<and> tx = x + dx \<and> ty = y + dy)"
    using assms
    by (auto simp: calculateAttackRange_def Let_def inBounds_def split: option.splits)
  show ?thesis
  proof
    assume "(tx, ty) \<in> set (calculateAttackRange g v)"
    with mem show "inBounds tx ty \<and> \<bar>tx - x\<bar> + \<bar>ty - y\<bar> \<le> ?r
           \<and> (\<exists>t. unit (tileAt g tx ty) = Some t \<and> player t \<noteq> player v)"
      by auto
  next
    assume a: "inBounds tx ty \<and> \<bar>tx - x\<bar> + \<bar>ty - y\<bar> \<le> ?r
           \<and> (\<exists>t. unit (tileAt g tx ty) = Some t \<and> player t \<noteq> player v)"
    show "(tx, ty) \<in> set (calculateAttackRange g v)"
      unfolding mem using a
      by (intro exI[of _ "tx - x"] exI[of _ "ty - y"]) auto
  qed
qed

lemma calculateMovementRange_iff:
  assumes "position v = (x, y)"
  shows "(tx, ty) \<in> set (calculateMovementRange g v) \<longleftrightarrow>
           inBounds tx ty \<and> \<bar>tx - x\<bar> + \<bar>ty - y\<bar> \<le> moveRange v
           \<and> unit (tileAt g tx ty) = None"
proof -
  let ?r = "moveRange v"
  have mem: "(tx, ty) \<in> set (calculateMovementRange g v) \<longleftrightarrow>
    (\<exists>dx dy. - ?r \<le> dx \<and> dx \<le> ?r \<and> - ?r \<le> dy \<and> dy \<le> ?r
       \<and> inBounds (x + dx) (y + dy)
       \<and> unit (tileAt g (x + dx) (y + dy)) = None
       \<and> \<bar>dx\<bar> + \<bar>dy\<bar> \<le> ?r \<and> tx = x + dx \<and> ty = y + dy)"
    using assms
    by (auto simp: calculateMovementRange_def Let_def inBounds_def)
  show ?thesis
  proof
    assume "(tx, ty) \<in> set (calculateMovementRange g v)"
    with mem show "inBounds tx ty \<and> \<bar>tx - x\<bar> + \<bar>ty - y\<bar> \<le> ?r
           \<and> unit (tileAt g tx ty) = None"
      by auto
  next
    assume a: "inBounds tx ty \<and> \<bar>tx - x\<bar> + \<bar>ty - y\<bar> \<le> ?r
           \<and> unit (tileAt g tx ty) = None"
    show "(tx, ty) \<in> set (calculateMovementRange g v)"
      unfolding mem using a
      by (intro exI[of _ "tx - x"] exI[of _ "ty - y"]) auto
  qed
qed

section \<open>Combat, model A\<close>

text \<open>
  C2. For every attacker, defender and defender terrain, \<open>calculateDamage\<close> is
  \<open>attack - (defense + defense * defenseBonus / 100)\<close>, raised to at least 10 and then
  cut at the defender's current health: it is never more than that health, and it is at
  least 10 whenever the defender has at least 10 health. An Infantry (attack 55)
  attacking an Infantry (defense 10, health 100) standing on a City (bonus 20) deals 43,
  which leaves 57.
\<close>

theorem calculateDamage_model_A:
  "calculateDamage a d t =
     min (health d) (max 10 (attack a - (defense d + defense d * defenseBonus t / 100)))
   \<and> calculateDamage a d t \<le> health d
   \<and> (10 \<le> health d \<longrightarrow> 10 \<le> calculateDamage a d t)
   \<and> calculateDamage (createUnit i Infantry p Red) (createUnit j Infantry q Blue)
        (TERRAIN_TYPES City) = 43
   \<and> health (createUnit j Infantry q Blue)
       - calculateDamage (createUnit i Infantry p Red) (createUnit j Infantry q Blue)
           (TERRAIN_TYPES City) = 57"
  by (simp add: calculateDamage_def createUnit_def Let_def max_def min_def)

theorem calculateDamage_model_A_witness:
  "10 \<le> health blueInfantry
   \<and> calculateDamage redInfantry blueInfantry (TERRAIN_TYPES Plain) = 40
   \<and> 10 \<le> calculateDamage redInfantry blueInfantry (TERRAIN_TYPES Plain)"
proof -
  have h: "10 \<le> health blueInfantry"
    "min (health blueInfantry) (max 10 (attack redInfantry
        - (defense blueInfantry
           + defense blueInfantry * defenseBonus (TERRAIN_TYPES Plain) / 100))) = 40"
    by code_simp+
  have "calculateDamage redInfantry blueInfantry (TERRAIN_TYPES Plain) =
      min (health blueInfantry) (max 10 (attack redInfantry
        - (defense blueInfantry
           + defense blueInfantry * defenseBonus (TERRAIN_TYPES Plain) / 100)))"
    by (rule conjunct1[OF calculateDamage_model_A])
  then have e: "calculateDamage redInfantry blueInfantry (TERRAIN_TYPES Plain) = 40"
    by (simp only: h(2))
  from h(1) e show ?thesis
    by simp
qed

section \<open>Targeting\<close>

text \<open>
  C3. In \<open>Game2\<close>, for a unit \<open>u\<close> standing at \<open>(x, y)\<close>, a tile \<open>(tx, ty)\<close> of the
  board is marked by \<open>calculateValidAttacks\<close> exactly when its Manhattan distance from
  \<open>(x, y)\<close> is at least \<open>minRange\<close> and at most \<open>maxRange\<close> of the unit's statistics and
  the tile holds a unit of the other player; the same holds for the scan with any
  statistics, and with \<open>maxRange = 0\<close> the scan marks nothing. An Artillery (range 2 to
  3) at \<open>(2, 2)\<close> can attack the enemy at \<open>(2, 4)\<close>, not those at \<open>(2, 3)\<close> and
  \<open>(2, 6)\<close>. In \<open>Game.tsx\<close> a unit has the one range \<open>attackRange\<close>:
  \<open>calculateAttackRange\<close> lists exactly the tiles of the board within that distance that
  hold an enemy unit, and lists nothing when \<open>attackRange\<close> is 0.
\<close>

theorem attackable_tiles:
  assumes "wfGrid2 g" and "inBounds2 x y" and "unit2 (at2 g x y) = Some u"
      and "inBounds2 tx ty" and "position v = (px, py)"
      and "unit (tileAt b px py) = Some v"
  shows "(at2 (calculateValidAttacks g x y) tx ty \<longleftrightarrow>
            minRange (UNIT_STATS (type2 u)) \<le> \<bar>tx - x\<bar> + \<bar>ty - y\<bar>
            \<and> \<bar>tx - x\<bar> + \<bar>ty - y\<bar> \<le> maxRange (UNIT_STATS (type2 u))
            \<and> (\<exists>t. unit2 (at2 g tx ty) = Some t \<and> player2 t \<noteq> player2 u))
       \<and> (at2 (scanAttacks stats g u x y) tx ty \<longleftrightarrow>
            minRange stats \<le> \<bar>tx - x\<bar> + \<bar>ty - y\<bar> \<and> \<bar>tx - x\<bar> + \<bar>ty - y\<bar> \<le> maxRange stats
            \<and> (\<exists>t. unit2 (at2 g tx ty) = Some t \<and> player2 t \<noteq> player2 u))
       \<and> (maxRange stats = 0 \<longrightarrow> \<not> at2 (scanAttacks stats g u x y) tx ty)
       \<and> at2 (calculateValidAttacks artilleryGrid2 2 2) 2 4
       \<and> \<not> at2 (calculateValidAttacks artilleryGrid2 2 2) 2 3
       \<and> \<not> at2 (calculateValidAttacks artilleryGrid2 2 2) 2 6
       \<and> ((qx, qy) \<in> set (calculateAttackRange b v) \<longleftrightarrow>
            inBounds qx qy \<and> \<bar>qx - px\<bar> + \<bar>qy - py\<bar> \<le> attackRange v
            \<and> (\<exists>t. unit (tileAt b qx qy) = Some t \<and> player t \<noteq> player v))
       \<and> (attackRange v = 0 \<longrightarrow> calculateAttackRange b v = [])"
proof -
  note scan = scanAttacks_iff[OF assms(4), of _ g u x y]
  have a: "at2 (calculateValidAttacks g x y) tx ty \<longleftrightarrow>
            minRange (UNIT_STATS (type2 u)) \<le> \<bar>tx - x\<bar> + \<bar>ty - y\<bar>
            \<and> \<bar>tx - x\<bar> + \<bar>ty - y\<bar> \<le> maxRange (UNIT_STATS (type2 u))
            \<and> (\<exists>t. unit2 (at2 g tx ty) = Some t \<and> player2 t \<noteq> player2 u)"
    using scan[of "UNIT_STATS (type2 u)"] assms(3) by (simp add: calculateValidAttacks_def)
  have z: "maxRange stats = 0 \<longrightarrow> \<not> at2 (scanAttacks stats g u x y) tx ty"
  proof
    assume m: "maxRange stats = 0"
    show "\<not> at2 (scanAttacks stats g u x y) tx ty"
    proof
      assume "at2 (scanAttacks stats g u x y) tx ty"
      with scan[of stats] m have "tx = x" "ty = y"
        and "\<exists>t. unit2 (at2 g tx ty) = Some t \<and> player2 t \<noteq> player2 u"
        by auto
      with assms(3) show False by simp
    qed
  qed
  have e1: "at2 (calculateValidAttacks artilleryGrid2 2 2) 2 4" by code_simp
  have e2: "\<not> at2 (calculateValidAttacks artilleryGrid2 2 2) 2 3" by code_simp
  have e3: "\<not> at2 (calculateValidAttacks artilleryGrid2 2 2) 2 6" by code_simp
  note r = calculateAttackRange_iff[OF assms(5), of _ _ b]
  have n: "attackRange v = 0 \<longrightarrow> calculateAttackRange b v = []"
  proof
    assume m: "attackRange v = 0"
    show "calculateAttackRange b v = []"
    proof (cases "calculateAttackRange b v")
      case Nil
      then show ?thesis .
    next
      case (Cons q qs)
      obtain rx ry where "q = (rx, ry)"
        by (cases q)
      with Cons have "(rx, ry) \<in> set (calculateAttackRange b v)"
        by simp
      with r[of rx ry] m have "rx = px" "ry = py"
        and "\<exists>t. unit (tileAt b rx ry) = Some t \<and> player t \<noteq> player v"
        by auto
      with assms(6) show ?thesis by simp
    qed
  qed
  from a scan[of stats] z e1 e2 e3 r[of qx qy] n show ?thesis
    by blast
qed

theorem attackable_tiles_witness:
  "wfGrid2 artilleryGrid2 \<and> inBounds2 2 2
   \<and> unit2 (at2 artilleryGrid2 2 2) = Some \<lparr>type2 = artillery, player2 = P1, hp = 100\<rparr>
   \<and> inBounds2 2 4 \<and> position redInfantry = (1, 0)
   \<and> unit (tileAt (grid duelState) 1 0) = Some redInfantry
   \<and> at2 (calculateValidAttacks artilleryGrid2 2 2) 2 4
   \<and> (1, 1) \<in> set (calculateAttackRange (grid duelState) redInfantry)"
proof -
  have h: "wfGrid2 artilleryGrid2" "inBounds2 2 2"
    "unit2 (at2 artilleryGrid2 2 2) = Some \<lparr>type2 = artillery, player2 = P1, hp = 100\<rparr>"
    "inBounds2 2 4" "position redInfantry = (1, 0)"
    "unit (tileAt (grid duelState) 1 0) = Some redInfantry"
    by code_simp+
  have t: "inBounds 1 1" "\<bar>1 - 1\<bar> + \<bar>1 - 0\<bar> \<le> attackRange redInfantry"
    "unit (tileAt (grid duelState) 1 1) = Some blueInfantry"
    "player blueInfantry \<noteq> player redInfantry"
    by code_simp+
  from attackable_tiles[OF h, of "UNIT_STATS artillery" 1 1] h t show ?thesis
    by blast
qed

section \<open>Selecting a unit\<close>

text \<open>
  C8. When \<open>handleUnitSelect\<close> is called on a tile whose unit belongs to the player
  who is not on turn, or has both moved and attacked, the only hook it sets is the
  status line: the grid, the current player, the selection and the two cached ranges
  are what they were.
\<close>

theorem handleUnitSelect_rejects:
  assumes "unit (tileAt (grid st) x y) = Some u"
      and "player u \<noteq> currentPlayer st \<or> (hasMoved u \<and> hasAttacked u)"
  shows "handleUnitSelect st x y =
           st\<lparr>gameStatus := (if player u \<noteq> currentPlayer st
                             then ItsPlayersTurn (currentPlayer st)
                             else AlreadyMovedAndAttacked)\<rparr>
       \<and> grid (handleUnitSelect st x y) = grid st
       \<and> currentPlayer (handleUnitSelect st x y) = currentPlayer st
       \<and> selectedUnit (handleUnitSelect st x y) = selectedUnit st
       \<and> movementRange (handleUnitSelect st x y) = movementRange st
       \<and> attackTargets (handleUnitSelect st x y) = attackTargets st"
  using assms by (auto simp: handleUnitSelect_def)

theorem handleUnitSelect_rejects_witness:
  "unit (tileAt (grid duelState) 1 1) = Some blueInfantry
   \<and> player blueInfantry \<noteq> currentPlayer duelState
   \<and> handleUnitSelect duelState 1 1 = duelState\<lparr>gameStatus := ItsPlayersTurn Red\<rparr>
   \<and> grid (handleUnitSelect duelState 1 1) = grid duelState"
proof -
  have h: "unit (tileAt (grid duelState) 1 1) = Some blueInfantry"
    "player blueInfantry \<noteq> currentPlayer duelState" "currentPlayer duelState = Red"
    by code_simp+
  from handleUnitSelect_rejects[OF h(1) disjI1[OF h(2)]] h show ?thesis
    by simp
qed

section \<open>Recovery of action points\<close>



section \<open>Cities of the time-driven game\<close>

text \<open>
  C10. In \<open>Game2\<close>, \<open>moveUnit\<close> onto a tile whose terrain is \<open>city\<close> leaves that tile
  owned by the player of the unit that moved, whatever the kind of the unit and whoever
  owned the tile; there is no capture progress and no capture action. The unit stands on
  the tile after the move.
\<close>

theorem moveUnit2_takes_city:
  assumes "wfGrid2 g" and "inBounds2 fromX fromY" and "inBounds2 toX toY"
      and "unit2 (at2 g fromX fromY) = Some u"
      and "terrain2 (at2 g toX toY) = city"
      and "(fromX, fromY) \<noteq> (toX, toY)"
  shows "owner2 (at2 (moveUnit2 g fromX fromY toX toY) toX toY) = Some (player2 u)
       \<and> unit2 (at2 (moveUnit2 g fromX fromY toX toY) toX toY) = Some u
       \<and> terrain2 (at2 (moveUnit2 g fromX fromY toX toY) toX toY) = city
       \<and> unit2 (at2 (moveUnit2 g fromX fromY toX toY) fromX fromY) = None"
proof -
  note b = inBounds2_nat[OF assms(2)] inBounds2_nat[OF assms(3)]
  note r = assms(1)[unfolded wfGrid2_def]
  note s = at2_set2[OF r] at2_set2[OF rect_set2[OF r]] at2_set2[OF rect_set2[OF rect_set2[OF r]]]
  from b assms(4,5,6) show ?thesis
    by (auto simp: moveUnit2_def Let_def setUnit2_def setOwner2_def s)
qed

theorem moveUnit2_takes_city_witness:
  "wfGrid2 (moveUnit2 initialGrid2 2 2 4 3) \<and> inBounds2 4 3 \<and> inBounds2 4 4
   \<and> unit2 (at2 (moveUnit2 initialGrid2 2 2 4 3) 4 3)
       = Some \<lparr>type2 = infantry, player2 = P1, hp = 100\<rparr>
   \<and> terrain2 (at2 (moveUnit2 initialGrid2 2 2 4 3) 4 4) = city
   \<and> owner2 (at2 (moveUnit2 initialGrid2 2 2 4 3) 4 4) = None
   \<and> owner2 (at2 (moveUnit2 (moveUnit2 initialGrid2 2 2 4 3) 4 3 4 4) 4 4) = Some P1"
proof -
  have h: "wfGrid2 (moveUnit2 initialGrid2 2 2 4 3)" "inBounds2 4 3" "inBounds2 4 4"
    "unit2 (at2 (moveUnit2 initialGrid2 2 2 4 3) 4 3)
       = Some \<lparr>type2 = infantry, player2 = P1, hp = 100\<rparr>"
    "terrain2 (at2 (moveUnit2 initialGrid2 2 2 4 3) 4 4) = city"
    "((4::int), (3::int)) \<noteq> (4, 4)"
    "owner2 (at2 (moveUnit2 initialGrid2 2 2 4 3) 4 4) = None"
    by code_simp+
  from moveUnit2_takes_city[OF h(1-6)] h show ?thesis
    by simp
qed

section \<open>Resolving an attack\<close>

text \<open>
  The damage of \<open>performAttack\<close> with the rounding of the doubles: an Artillery with 96
  hp attacks a Tank with 64 hp on a plain for 63, which exact arithmetic would make 64,
  and an Infantry attacks an Infantry, both with 100 hp, for 30.
\<close>

lemma attackDamage_doubles:
  "attackDamage \<lparr>type2 = artillery, player2 = P1, hp = 96\<rparr>
     \<lparr>type2 = tank, player2 = P2, hp = 64\<rparr> plain = 63
   \<and> attackDamage \<lparr>type2 = infantry, player2 = P1, hp = 100\<rparr>
     \<lparr>type2 = infantry, player2 = P2, hp = 100\<rparr> plain = 30"
  by code_simp





section \<open>The end of a match\<close>

text \<open>
  C7, as the code has it. When the board after \<open>attackUnit\<close> has no Red unit the
  status line is 'Blue wins!', and when it has a Red unit and no Blue unit the status
  line is 'Red wins!'. Nothing else records the win, and no handler reads the status
  line: \<open>handleTileClick\<close> and \<open>endTurn\<close> set the other hooks as they would from the
  same state with any other status line, and \<open>endTurn\<close> always passes the turn and
  writes the status line anew.
\<close>

theorem win_sets_status_only:
  "(unitsLeft (grid (attackUnit st a x y)) Red = 0
      \<longrightarrow> gameStatus (attackUnit st a x y) = Wins Blue)
   \<and> (unitsLeft (grid (attackUnit st a x y)) Red \<noteq> 0
       \<and> unitsLeft (grid (attackUnit st a x y)) Blue = 0
      \<longrightarrow> gameStatus (attackUnit st a x y) = Wins Red)
   \<and> currentPlayer (endTurn t) = (if currentPlayer t = Red then Blue else Red)
   \<and> gameStatus (endTurn t) = PlayersTurn (currentPlayer (endTurn t))
   \<and> sameHooks (endTurn (t\<lparr>gameStatus := s\<rparr>)) (endTurn t)
   \<and> sameHooks (handleTileClick (t\<lparr>gameStatus := s\<rparr>) x' y') (handleTileClick t x' y')"
proof (intro conjI)
  show "unitsLeft (grid (attackUnit st a x y)) Red = 0
      \<longrightarrow> gameStatus (attackUnit st a x y) = Wins Blue"
    by (simp add: attackUnit_def Let_def split: prod.splits)
  show "unitsLeft (grid (attackUnit st a x y)) Red \<noteq> 0
       \<and> unitsLeft (grid (attackUnit st a x y)) Blue = 0
      \<longrightarrow> gameStatus (attackUnit st a x y) = Wins Red"
    by (simp add: attackUnit_def Let_def split: prod.splits)
  show "currentPlayer (endTurn t) = (if currentPlayer t = Red then Blue else Red)"
    by (simp add: endTurn_def Let_def)
  show "gameStatus (endTurn t) = PlayersTurn (currentPlayer (endTurn t))"
    by (simp add: endTurn_def Let_def)
  show "sameHooks (endTurn (t\<lparr>gameStatus := s\<rparr>)) (endTurn t)"
    by (auto simp: endTurn_def Let_def sameHooks_def split: option.splits)
  show "sameHooks (handleTileClick (t\<lparr>gameStatus := s\<rparr>) x' y') (handleTileClick t x' y')"
    by (simp add: handleTileClick_def ownUnitAt_def handleUnitSelect_def moveUnit_def
          attackUnit_def Let_def sameHooks_def split: option.splits prod.splits)
qed

theorem win_sets_status_only_witness:
  "unitsLeft (grid (attackUnit movedState (the (selectedUnit movedState)) 1 1)) Red \<noteq> 0
   \<and> unitsLeft (grid (attackUnit movedState (the (selectedUnit movedState)) 1 1)) Blue = 0
   \<and> gameStatus (attackUnit movedState (the (selectedUnit movedState)) 1 1) = Wins Red"
proof -
  have h: "unitsLeft (grid (attackUnit movedState (the (selectedUnit movedState)) 1 1)) Red \<noteq> 0
   \<and> unitsLeft (grid (attackUnit movedState (the (selectedUnit movedState)) 1 1)) Blue = 0"
    by code_simp
  from win_sets_status_only[of movedState "the (selectedUnit movedState)" 1 1] h
  show ?thesis by blast
qed

text \<open>
  C7 as the claim has it fails. After the three clicks that destroy the last Blue unit
  the status line is 'Red wins!'; "End Turn" is accepted twice, the click on the Red
  Infantry selects it, and the next click moves it.
\<close>

theorem win_sets_status_only_counterexample:
  "gameStatus wonState = Wins Red
   \<and> unitsLeft (grid wonState) Blue = 0
   \<and> currentPlayer (endTurn wonState) = Blue
   \<and> gameStatus (endTurn wonState) = PlayersTurn Blue
   \<and> currentPlayer (endTurn (endTurn wonState)) = Red
   \<and> selectedUnit afterWinState \<noteq> None
   \<and> gameStatus afterWinState = SelectTileToMoveTo
   \<and> unit (tileAt (grid afterWinState) 0 2) = None
   \<and> unit (tileAt (grid (handleTileClick afterWinState 0 2)) 0 2) \<noteq> None
   \<and> unit (tileAt (grid (handleTileClick afterWinState 0 2)) 0 1) = None"
  by code_simp

section \<open>Capturing a city\<close>

text \<open>
  What \<open>captureCity\<close> does on a city tile whose \<open>captureProgress\<close> is a number \<open>n\<close>.
  A unit that is not an Infantry adds nothing. An Infantry starts from 0 when the city
  has an owner who is not its player, and from \<open>n\<close> otherwise, adds 50, and at 100 or
  more takes the city and sets the progress to 0; the unit is stored with
  \<open>hasAttacked = true\<close>.
\<close>

lemma captureCity_on_numbers:
  assumes "rect h w (grid3 st)" and "0 \<le> x" and "nat x < w" and "0 \<le> y" and "nat y < h"
      and "isCity (terrain3 (at2 (grid3 st) x y))"
      and "captureProgress (terrain3 (at2 (grid3 st) x y)) = Some n"
      and "start = (if owner (terrain3 (at2 (grid3 st) x y)) \<noteq> None
                      \<and> owner (terrain3 (at2 (grid3 st) x y)) \<noteq> Some (player u)
                    then 0 else n)"
  shows "fst (captureCity st u x y) = (unit_type u = Infantry)"
    and "unit_type u \<noteq> Infantry \<Longrightarrow>
           captureProgress (terrain3 (at2 (grid3 (snd (captureCity st u x y))) x y)) = Some start
           \<and> owner (terrain3 (at2 (grid3 (snd (captureCity st u x y))) x y))
               = owner (terrain3 (at2 (grid3 st) x y))"
    and "unit_type u = Infantry \<Longrightarrow>
           captureProgress (terrain3 (at2 (grid3 (snd (captureCity st u x y))) x y))
             = Some (if start + 50 \<ge> 100 then 0 else start + 50)
           \<and> owner (terrain3 (at2 (grid3 (snd (captureCity st u x y))) x y))
               = (if start + 50 \<ge> 100 then Some (player u)
                  else owner (terrain3 (at2 (grid3 st) x y)))
           \<and> unit3 (at2 (grid3 (snd (captureCity st u x y))) x y) = Some (u\<lparr>hasAttacked := True\<rparr>)
           \<and> selectedUnit3 (snd (captureCity st u x y)) = Some (u\<lparr>hasAttacked := True\<rparr>)"
proof -
  note r = assms(1)
  note s = at2_set2[OF r assms(2-5) assms(2) assms(4)]
    at2_set2[OF rect_set2[OF r] assms(2-5) assms(2) assms(4)]
  show "fst (captureCity st u x y) = (unit_type u = Infantry)"
    using assms(6) by (simp add: captureCity_def Let_def)
  show "unit_type u \<noteq> Infantry \<Longrightarrow>
           captureProgress (terrain3 (at2 (grid3 (snd (captureCity st u x y))) x y)) = Some start
           \<and> owner (terrain3 (at2 (grid3 (snd (captureCity st u x y))) x y))
               = owner (terrain3 (at2 (grid3 st) x y))"
    using assms(6,7,8) by (simp add: captureCity_def Let_def setTerrain3_def s)
  show "unit_type u = Infantry \<Longrightarrow>
           captureProgress (terrain3 (at2 (grid3 (snd (captureCity st u x y))) x y))
             = Some (if start + 50 \<ge> 100 then 0 else start + 50)
           \<and> owner (terrain3 (at2 (grid3 (snd (captureCity st u x y))) x y))
               = (if start + 50 \<ge> 100 then Some (player u)
                  else owner (terrain3 (at2 (grid3 st) x y)))
           \<and> unit3 (at2 (grid3 (snd (captureCity st u x y))) x y) = Some (u\<lparr>hasAttacked := True\<rparr>)
           \<and> selectedUnit3 (snd (captureCity st u x y)) = Some (u\<lparr>hasAttacked := True\<rparr>)"
    using assms(6,7,8)
    by (simp add: captureCity_def Let_def setTerrain3_def setUnit3_def s)
qed

text \<open>
  On a board that \<open>initializeGrid\<close> has made, the two captures do what C5 says. The
  first city of the top rows is Red's and the other city has no owner and the progress 0;
  the Red Infantry on that city brings it to 50 with the first capture, and with the
  second the city is Red's, with progress 0.
\<close>

lemma captureCity_initialised_city:
  "owner (terrain3 (at2 (grid3 initialisedState3) 2 1)) = Some Red
   \<and> owner (terrain3 (at2 (grid3 initialisedState3) 4 1)) = None
   \<and> captureProgress (terrain3 (at2 (grid3 initialisedState3) 4 1)) = Some 0
   \<and> fst firstCaptureInitialised3
   \<and> captureProgress (terrain3 (at2 (grid3 (snd firstCaptureInitialised3)) 4 1)) = Some 50
   \<and> owner (terrain3 (at2 (grid3 (snd firstCaptureInitialised3)) 4 1)) = None
   \<and> gameStatus3 (snd firstCaptureInitialised3) = Capturing (Some 50)
   \<and> map_option hasAttacked (unit3 (at2 (grid3 (snd firstCaptureInitialised3)) 4 1)) = Some True
   \<and> fst secondCaptureInitialised3
   \<and> captureProgress (terrain3 (at2 (grid3 (snd secondCaptureInitialised3)) 4 1)) = Some 0
   \<and> owner (terrain3 (at2 (grid3 (snd secondCaptureInitialised3)) 4 1)) = Some Red
   \<and> gameStatus3 (snd secondCaptureInitialised3) = CapturedCity Red"
  by code_simp

text \<open>
  C5 on the board the component plays on. \<open>initializeGame\<close> takes the board from
  \<open>generateInitialGrid\<close>, whose city tiles hold the entry \<open>City\<close> of \<open>TERRAIN_TYPES\<close>,
  without \<open>owner\<close> and \<open>captureProgress\<close>. The first capture of the Red Infantry
  selected on the city at \<open>(4, 1)\<close> is performed (the handler returns, the unit has
  \<open>hasAttacked = true\<close>), and the progress is \<open>undefined + 50\<close>, not a number: the status
  line is 'Capturing: NaN%'. After the second capture the progress is still not a number
  and the city has no owner.
\<close>

theorem captureCity_uninitialised_city:
  "isCity (terrain3 (at2 (grid3 cityState3) 4 1))
   \<and> fst firstCapture3
   \<and> captureProgress (terrain3 (at2 (grid3 (snd firstCapture3)) 4 1)) = None
   \<and> owner (terrain3 (at2 (grid3 (snd firstCapture3)) 4 1)) = None
   \<and> gameStatus3 (snd firstCapture3) = Capturing None
   \<and> map_option hasAttacked (unit3 (at2 (grid3 (snd firstCapture3)) 4 1)) = Some True
   \<and> fst secondCapture3
   \<and> captureProgress (terrain3 (at2 (grid3 (snd secondCapture3)) 4 1)) = None
   \<and> owner (terrain3 (at2 (grid3 (snd secondCapture3)) 4 1)) = None
   \<and> gameStatus3 (snd secondCapture3) = Capturing None"
  by code_simp

section \<open>Facts about the search\<close>

lemma stepCost_pos: "0 < stepCost g p"
  by (simp add: stepCost_def)

lemma treeInv_enqueue:
  assumes "treeInv g u orig mv C M V Q left" and "c \<in> M" and "n \<notin> V"
      and "passable g u n" and "n \<in> set (neighbours c)"
      and "0 \<le> left c - stepCost g n"
  shows "treeInv g u orig mv C M (insert n V)
           (Q @ [(fst n, snd n, left c - stepCost g n)]) (left(n := left c - stepCost g n))"
proof -
  let ?l = "left(n := left c - stepCost g n)"
  have cV: "c \<in> V" using assms(1,2) by (auto simp: treeInv_def)
  have same: "\<And>p. p \<in> V \<Longrightarrow> ?l p = left p" using assms(3) by auto
  have lc: "left c \<le> mv" using assms(1) cV by (auto simp: treeInv_def)
  have sp: "0 < stepCost g n" by (rule stepCost_pos)
  have MV: "M \<subseteq> V" using assms(1) by (simp add: treeInv_def)
  have CM: "C \<subseteq> M" using assms(1) by (simp add: treeInv_def)
  have d: "distinct (map qpos (Q @ [(fst n, snd n, left c - stepCost g n)]))"
    using assms(1,3) by (auto simp: treeInv_def qpos_def)
  have q: "\<forall>q \<in> set (Q @ [(fst n, snd n, left c - stepCost g n)]).
             qpos q \<in> insert n V \<and> qpos q \<notin> M \<and> ?l (qpos q) = snd (snd q)"
    using assms(1,3) MV by (auto simp: treeInv_def qpos_def)
  have f3: "insert n V - M \<subseteq> qpos ` set (Q @ [(fst n, snd n, left c - stepCost g n)])"
    using assms(1) by (auto simp: treeInv_def qpos_def)
  have o: "orig \<in> insert n V \<and> ?l orig = mv"
    using assms(1,3) by (auto simp: treeInv_def)
  have le: "\<forall>t \<in> insert n V. ?l t \<le> mv"
    using assms(1) lc sp by (auto simp: treeInv_def)
  have tree: "\<forall>t \<in> insert n V. t \<noteq> orig \<longrightarrow>
            passable g u t \<and> 0 \<le> ?l t
            \<and> (\<exists>c \<in> M. t \<in> set (neighbours c) \<and> ?l t = ?l c - stepCost g t)"
  proof (intro ballI impI)
    fix t assume t: "t \<in> insert n V" "t \<noteq> orig"
    show "passable g u t \<and> 0 \<le> ?l t
            \<and> (\<exists>c \<in> M. t \<in> set (neighbours c) \<and> ?l t = ?l c - stepCost g t)"
    proof (cases "t = n")
      case True
      with assms(2,4,5,6) same[OF cV] show ?thesis
        by (intro conjI bexI[of _ c]) auto
    next
      case False
      with t have tV: "t \<in> V" by simp
      with assms(1) t(2) obtain c' where c': "passable g u t" "0 \<le> left t" "c' \<in> M"
        "t \<in> set (neighbours c')" "left t = left c' - stepCost g t"
        by (auto simp: treeInv_def)
      from c'(3) MV have "c' \<in> V" by auto
      with c' same[OF tV] same[of c'] show ?thesis
        by (intro conjI bexI[of _ c']) auto
    qed
  qed
  have clo: "\<forall>c' \<in> C. \<forall>n' \<in> set (neighbours c').
            passable g u n' \<and> 0 \<le> ?l c' - stepCost g n' \<longrightarrow> n' \<in> insert n V"
  proof (intro ballI impI)
    fix c' n' assume a: "c' \<in> C" "n' \<in> set (neighbours c')"
      "passable g u n' \<and> 0 \<le> ?l c' - stepCost g n'"
    from a(1) CM MV have "c' \<in> V" by auto
    with a same[of c'] assms(1) show "n' \<in> insert n V"
      by (auto simp: treeInv_def)
  qed
  from d q f3 MV CM o le tree clo show ?thesis
    unfolding treeInv_def by blast
qed

lemma treeInv_dequeue:
  assumes "treeInv g u orig mv M M V (q # Q) left"
  shows "treeInv g u orig mv M (insert (qpos q) M) V Q left"
  using assms unfolding treeInv_def
  by (auto simp: image_iff)

lemma treeInv_close:
  assumes "treeInv g u orig mv C M V Q left" and "c \<in> M"
      and "\<forall>n \<in> set (neighbours c). passable g u n \<and> 0 \<le> left c - stepCost g n \<longrightarrow> n \<in> V"
  shows "treeInv g u orig mv (insert c C) M V Q left"
  using assms unfolding treeInv_def by auto


lemma visitNeighbour_eq:
  "visitNeighbour g u (cx, cy, ml) (dx, dy) (visited, Q) =
     (if passable g u (cx + dx, cy + dy) \<and> (cx + dx, cy + dy) \<notin> markedSet visited
         \<and> 0 \<le> ml - stepCost g (cx + dx, cy + dy)
      then (set2 visited (cx + dx) (cy + dy) True,
            Q @ [(cx + dx, cy + dy, ml - stepCost g (cx + dx, cy + dy))])
      else (visited, Q))"
  by (auto simp: visitNeighbour_def Let_def passable_def markedSet_def marked_def stepCost_def
        inBounds2_def split: option.splits)

lemma at2_set2_True:
  assumes "rect (nat gridSize_height) (nat gridSize_width) a" and "inBounds2 x y"
      and "inBounds2 x' y'"
  shows "at2 (set2 a x y True) x' y' \<longleftrightarrow> (x' = x \<and> y' = y) \<or> at2 a x' y'"
proof -
  from assms(2) have b: "0 \<le> x" "nat x < nat gridSize_width" "0 \<le> y" "nat y < nat gridSize_height"
    by (simp_all add: inBounds2_def)
  from assms(3) have c: "0 \<le> x'" "0 \<le> y'"
    by (simp_all add: inBounds2_def)
  show ?thesis
    unfolding at2_set2[OF assms(1) b c] by auto
qed

lemma markedSet_set2:
  assumes "rect (nat gridSize_height) (nat gridSize_width) a" and "inBounds2 x y"
  shows "markedSet (set2 a x y True) = insert (x, y) (markedSet a)"
proof (rule set_eqI)
  fix p :: "int \<times> int"
  obtain px py where p: "p = (px, py)" by (cases p)
  show "p \<in> markedSet (set2 a x y True) \<longleftrightarrow> p \<in> insert (x, y) (markedSet a)"
  proof (cases "inBounds2 px py")
    case True
    from at2_set2_True[OF assms True] True assms(2) show ?thesis
      unfolding p markedSet_def marked_def by auto
  next
    case False
    with assms(2) show ?thesis
      unfolding p markedSet_def marked_def by auto
  qed
qed

lemma unvisited_set2:
  assumes "rect (nat gridSize_height) (nat gridSize_width) a" and "inBounds2 x y"
  shows "unvisited (set2 a x y True) = unvisited a - {(x, y)}"
proof (rule set_eqI)
  fix p :: "int \<times> int"
  obtain px py where p: "p = (px, py)" by (cases p)
  show "p \<in> unvisited (set2 a x y True) \<longleftrightarrow> p \<in> unvisited a - {(x, y)}"
  proof (cases "inBounds2 px py")
    case True
    from at2_set2_True[OF assms True] True show ?thesis
      unfolding p unvisited_def by auto
  next
    case False
    then show ?thesis
      unfolding p unvisited_def by auto
  qed
qed

lemma finite_unvisited: "finite (unvisited v)"
proof -
  have "unvisited v \<subseteq> {0 ..< gridSize_width} \<times> {0 ..< gridSize_height}"
    by (auto simp: unvisited_def inBounds2_def)
  then show ?thesis
    by (rule finite_subset) simp
qed

lemma card_unvisited_set2:
  assumes "rect (nat gridSize_height) (nat gridSize_width) a" and "inBounds2 x y"
      and "(x, y) \<notin> markedSet a"
  shows "Suc (card (unvisited (set2 a x y True))) = card (unvisited a)"
proof -
  have "(x, y) \<in> unvisited a"
    using assms(2,3) by (simp add: unvisited_def markedSet_def marked_def)
  from card.remove[OF finite_unvisited this] show ?thesis
    unfolding unvisited_set2[OF assms(1,2)] by simp
qed

lemma visitNeighbour_step:
  assumes "rect (nat gridSize_height) (nat gridSize_width) visited"
      and "treeInv g u orig mv C M (markedSet visited) Q left"
      and "(cx, cy) \<in> M" and "left (cx, cy) = ml" and "(dx, dy) \<in> set directions"
      and "visitNeighbour g u (cx, cy, ml) (dx, dy) (visited, Q) = (visited', Q')"
  shows "\<exists>left'. rect (nat gridSize_height) (nat gridSize_width) visited'
           \<and> treeInv g u orig mv C M (markedSet visited') Q' left'
           \<and> markedSet visited \<subseteq> markedSet visited'
           \<and> left' (cx, cy) = ml
           \<and> (passable g u (cx + dx, cy + dy) \<and> 0 \<le> ml - stepCost g (cx + dx, cy + dy)
                \<longrightarrow> (cx + dx, cy + dy) \<in> markedSet visited')
           \<and> card (unvisited visited') + length Q' \<le> card (unvisited visited) + length Q"
proof (cases "passable g u (cx + dx, cy + dy) \<and> (cx + dx, cy + dy) \<notin> markedSet visited
         \<and> 0 \<le> ml - stepCost g (cx + dx, cy + dy)")
  case True
  let ?n = "(cx + dx, cy + dy)"
  let ?k = "ml - stepCost g ?n"
  from assms(6)[unfolded visitNeighbour_eq if_P[OF True]]
  have v: "visited' = set2 visited (cx + dx) (cy + dy) True"
    and q: "Q' = Q @ [(cx + dx, cy + dy, ?k)]"
    by simp_all
  from True have ib: "inBounds2 (cx + dx) (cy + dy)"
    by (simp add: passable_def)
  have nb: "?n \<in> set (neighbours (cx, cy))"
    using assms(5) by (force simp: neighbours_def)
  have cV: "(cx, cy) \<in> markedSet visited"
    using assms(2,3) by (auto simp: treeInv_def)
  with True have ne: "(cx, cy) \<noteq> ?n" by auto
  have ms: "markedSet visited' = insert ?n (markedSet visited)"
    unfolding v by (rule markedSet_set2[OF assms(1) ib])
  from treeInv_enqueue[OF assms(2,3) _ _ nb, unfolded assms(4)] True
  have inv: "treeInv g u orig mv C M (markedSet visited') Q' (left(?n := ?k))"
    unfolding ms q by simp
  have cnt: "Suc (card (unvisited visited')) = card (unvisited visited)"
    unfolding v using True by (intro card_unvisited_set2[OF assms(1) ib]) simp
  show ?thesis
  proof (intro exI[of _ "left(?n := ?k)"] conjI)
    show "rect (nat gridSize_height) (nat gridSize_width) visited'"
      unfolding v by (rule rect_set2[OF assms(1)])
    show "treeInv g u orig mv C M (markedSet visited') Q' (left(?n := ?k))"
      by (rule inv)
    show "markedSet visited \<subseteq> markedSet visited'"
      unfolding ms by auto
    show "(left(?n := ?k)) (cx, cy) = ml"
      by (simp only: fun_upd_other[OF ne] assms(4))
    show "passable g u ?n \<and> 0 \<le> ml - stepCost g ?n \<longrightarrow> ?n \<in> markedSet visited'"
      unfolding ms by simp
    show "card (unvisited visited') + length Q' \<le> card (unvisited visited) + length Q"
      using cnt unfolding q by simp
  qed
next
  case False
  from assms(6)[unfolded visitNeighbour_eq if_not_P[OF False]]
  have v: "visited' = visited" and q: "Q' = Q"
    by simp_all
  have "passable g u (cx + dx, cy + dy) \<and> 0 \<le> ml - stepCost g (cx + dx, cy + dy)
                \<longrightarrow> (cx + dx, cy + dy) \<in> markedSet visited"
    using False by blast
  with assms(1,2,4) show ?thesis
    unfolding v q by (intro exI[of _ left] conjI) simp_all
qed


lemma fold_visitNeighbour:
  assumes "set ds \<subseteq> set directions"
      and "rect (nat gridSize_height) (nat gridSize_width) visited"
      and "treeInv g u orig mv C M (markedSet visited) Q left"
      and "(cx, cy) \<in> M" and "left (cx, cy) = ml"
      and "fold (visitNeighbour g u (cx, cy, ml)) ds (visited, Q) = (visited', Q')"
  shows "\<exists>left'. rect (nat gridSize_height) (nat gridSize_width) visited'
           \<and> treeInv g u orig mv C M (markedSet visited') Q' left'
           \<and> markedSet visited \<subseteq> markedSet visited'
           \<and> left' (cx, cy) = ml
           \<and> (\<forall>d \<in> set ds.
                 passable g u (cx + fst d, cy + snd d)
                 \<and> 0 \<le> ml - stepCost g (cx + fst d, cy + snd d)
                 \<longrightarrow> (cx + fst d, cy + snd d) \<in> markedSet visited')
           \<and> card (unvisited visited') + length Q' \<le> card (unvisited visited) + length Q"
  using assms
proof (induction ds arbitrary: visited Q left)
  case Nil
  then show ?case
    by (intro exI[of _ left]) simp
next
  case (Cons d ds)
  obtain dx dy where d: "d = (dx, dy)" by (cases d)
  obtain v1 Q1 where s1: "visitNeighbour g u (cx, cy, ml) (dx, dy) (visited, Q) = (v1, Q1)"
    by (cases "visitNeighbour g u (cx, cy, ml) (dx, dy) (visited, Q)")
  from Cons.prems(1) d have dd: "(dx, dy) \<in> set directions" by simp
  from visitNeighbour_step[OF Cons.prems(2,3,4,5) dd s1]
  obtain left1 where l1: "rect (nat gridSize_height) (nat gridSize_width) v1"
    "treeInv g u orig mv C M (markedSet v1) Q1 left1"
    "markedSet visited \<subseteq> markedSet v1" "left1 (cx, cy) = ml"
    "passable g u (cx + dx, cy + dy) \<and> 0 \<le> ml - stepCost g (cx + dx, cy + dy)
       \<longrightarrow> (cx + dx, cy + dy) \<in> markedSet v1"
    "card (unvisited v1) + length Q1 \<le> card (unvisited visited) + length Q"
    by blast
  from Cons.prems(6) d s1
  have f: "fold (visitNeighbour g u (cx, cy, ml)) ds (v1, Q1) = (visited', Q')"
    by simp
  from Cons.prems(1) have sub: "set ds \<subseteq> set directions" by simp
  from Cons.IH[OF sub l1(1,2) Cons.prems(4) l1(4) f]
  obtain left' where l2: "rect (nat gridSize_height) (nat gridSize_width) visited'"
    "treeInv g u orig mv C M (markedSet visited') Q' left'"
    "markedSet v1 \<subseteq> markedSet visited'" "left' (cx, cy) = ml"
    "\<forall>d \<in> set ds.
        passable g u (cx + fst d, cy + snd d) \<and> 0 \<le> ml - stepCost g (cx + fst d, cy + snd d)
        \<longrightarrow> (cx + fst d, cy + snd d) \<in> markedSet visited'"
    "card (unvisited visited') + length Q' \<le> card (unvisited v1) + length Q1"
    by blast
  show ?case
  proof (intro exI[of _ left'] conjI)
    show "rect (nat gridSize_height) (nat gridSize_width) visited'" by (rule l2(1))
    show "treeInv g u orig mv C M (markedSet visited') Q' left'" by (rule l2(2))
    show "markedSet visited \<subseteq> markedSet visited'" using l1(3) l2(3) by blast
    show "left' (cx, cy) = ml" by (rule l2(4))
    show "\<forall>d \<in> set (d # ds).
        passable g u (cx + fst d, cy + snd d) \<and> 0 \<le> ml - stepCost g (cx + fst d, cy + snd d)
        \<longrightarrow> (cx + fst d, cy + snd d) \<in> markedSet visited'"
      using l1(5) l2(3,5) d by auto
    show "card (unvisited visited') + length Q' \<le> card (unvisited visited) + length Q"
      using l1(6) l2(6) by simp
  qed
qed

lemma treeInv_done:
  assumes "treeInv g u orig mv M M V [] left"
  shows "V = M"
  using assms by (auto simp: treeInv_def)

lemma movesLoop_result:
  assumes "rect (nat gridSize_height) (nat gridSize_width) visited"
      and "rect (nat gridSize_height) (nat gridSize_width) moves"
      and "treeInv g u orig mv (markedSet moves) (markedSet moves) (markedSet visited) Q left"
  shows "\<exists>res left'. movesLoop g u Q visited moves = Some res
           \<and> rect (nat gridSize_height) (nat gridSize_width) res
           \<and> treeInv g u orig mv (markedSet res) (markedSet res) (markedSet res) [] left'"
  using assms
proof (induction "card (unvisited visited) + length Q" arbitrary: visited moves Q left
    rule: less_induct)
  case less
  show ?case
  proof (cases Q)
    case Nil
    from treeInv_done[OF less.prems(3)[unfolded Nil]] less.prems(3)
    have "treeInv g u orig mv (markedSet moves) (markedSet moves) (markedSet moves) [] left"
      unfolding Nil by simp
    with less.prems(2) show ?thesis
      unfolding Nil by (subst movesLoop.simps) auto
  next
    case (Cons q rest)
    obtain cx cy ml where q: "q = (cx, cy, ml)" by (cases q)
    let ?M = "markedSet moves"
    from less.prems(3) have qV: "(cx, cy) \<in> markedSet visited" and ql: "left (cx, cy) = ml"
      unfolding Cons q by (auto simp: treeInv_def qpos_def)
    then have ib: "inBounds2 cx cy"
      by (simp add: markedSet_def marked_def)
    have M': "markedSet (set2 moves cx cy True) = insert (cx, cy) ?M"
      by (rule markedSet_set2[OF less.prems(2) ib])
    have r': "rect (nat gridSize_height) (nat gridSize_width) (set2 moves cx cy True)"
      by (rule rect_set2[OF less.prems(2)])
    from treeInv_dequeue[OF less.prems(3)[unfolded Cons]]
    have deq: "treeInv g u orig mv ?M (insert (cx, cy) ?M) (markedSet visited) rest left"
      by (simp add: q qpos_def)
    obtain v' Q' where f: "fold (visitNeighbour g u (cx, cy, ml)) directions (visited, rest) = (v', Q')"
      by (cases "fold (visitNeighbour g u (cx, cy, ml)) directions (visited, rest)")
    from fold_visitNeighbour[OF subset_refl less.prems(1) deq _ ql f]
    obtain left' where l: "rect (nat gridSize_height) (nat gridSize_width) v'"
      "treeInv g u orig mv ?M (insert (cx, cy) ?M) (markedSet v') Q' left'"
      "left' (cx, cy) = ml"
      "\<forall>d \<in> set directions.
          passable g u (cx + fst d, cy + snd d) \<and> 0 \<le> ml - stepCost g (cx + fst d, cy + snd d)
          \<longrightarrow> (cx + fst d, cy + snd d) \<in> markedSet v'"
      "card (unvisited v') + length Q' \<le> card (unvisited visited) + length rest"
      by blast
    from l(3,4) have clo: "\<forall>n \<in> set (neighbours (cx, cy)).
        passable g u n \<and> 0 \<le> left' (cx, cy) - stepCost g n \<longrightarrow> n \<in> markedSet v'"
      by (auto simp: neighbours_def)
    from treeInv_close[OF l(2) _ clo]
    have inv': "treeInv g u orig mv (markedSet (set2 moves cx cy True))
                  (markedSet (set2 moves cx cy True)) (markedSet v') Q' left'"
      unfolding M' by simp
    from l(5) have "card (unvisited v') + length Q' < card (unvisited visited) + length Q"
      unfolding Cons by simp
    from less.hyps[OF this l(1) r' inv']
    obtain res left'' where "movesLoop g u Q' v' (set2 moves cx cy True) = Some res"
      "rect (nat gridSize_height) (nat gridSize_width) res"
      "treeInv g u orig mv (markedSet res) (markedSet res) (markedSet res) [] left''"
      by blast
    with f show ?thesis
      unfolding Cons q by (subst movesLoop.simps) auto
  qed
qed

lemma markedSet_falseGrid: "markedSet falseGrid = {}"
  by (auto simp: markedSet_def marked_def at2_falseGrid)

lemma treeInv_start:
  "treeInv g u (x, y) mv {} {} {(x, y)} [(x, y, mv)] (\<lambda>p. mv)"
  by (simp add: treeInv_def qpos_def)

lemma calculateValidMoves_tree:
  assumes "inBounds2 x y" and "unit2 (at2 g x y) = Some u"
  shows "\<exists>res left. calculateValidMoves g x y = Some res
           \<and> rect (nat gridSize_height) (nat gridSize_width) res
           \<and> treeInv g u (x, y) (movement (UNIT_STATS (type2 u)))
                (markedSet res) (markedSet res) (markedSet res) [] left"
proof -
  have v: "markedSet (set2 falseGrid x y True) = {(x, y)}"
    unfolding markedSet_set2[OF rect_falseGrid assms(1)] markedSet_falseGrid by simp
  have inv0: "treeInv g u (x, y) (movement (UNIT_STATS (type2 u)))
      (markedSet falseGrid) (markedSet falseGrid) (markedSet (set2 falseGrid x y True))
      [(x, y, movement (UNIT_STATS (type2 u)))] (\<lambda>p. movement (UNIT_STATS (type2 u)))"
    unfolding v markedSet_falseGrid by (rule treeInv_start)
  from movesLoop_result[OF rect_set2[OF rect_falseGrid] rect_falseGrid inv0]
  show ?thesis
    unfolding calculateValidMoves_def using assms(2) by simp
qed

lemma walk_snoc:
  "walk g u p (qs @ [t]) \<longleftrightarrow>
     walk g u p qs \<and> t \<in> set (neighbours (last (p # qs))) \<and> passable g u t"
  by (induction qs arbitrary: p) auto

lemma tree_walk:
  assumes "treeInv g u orig mv R R R [] left" and "t \<in> R"
  shows "\<exists>qs. walk g u orig qs \<and> last (orig # qs) = t \<and> set qs \<subseteq> R
           \<and> sum_list (map (stepCost g) qs) = mv - left t"
  using assms(2)
proof (induction "nat (mv - left t)" arbitrary: t rule: less_induct)
  case less
  show ?case
  proof (cases "t = orig")
    case True
    with assms(1) show ?thesis
      by (intro exI[of _ "[]"]) (simp add: treeInv_def)
  next
    case False
    with assms(1) less.prems obtain c where c: "passable g u t" "c \<in> R"
      "t \<in> set (neighbours c)" "left t = left c - stepCost g t"
      unfolding treeInv_def by blast
    from assms(1) c(2) have "left c \<le> mv"
      unfolding treeInv_def by blast
    with c(4) stepCost_pos[of g t] have "nat (mv - left c) < nat (mv - left t)"
      by simp
    from less.hyps[OF this c(2)] obtain qs where qs: "walk g u orig qs"
      "last (orig # qs) = c" "set qs \<subseteq> R" "sum_list (map (stepCost g) qs) = mv - left c"
      by blast
    show ?thesis
    proof (intro exI[of _ "qs @ [t]"] conjI)
      show "walk g u orig (qs @ [t])"
        unfolding walk_snoc using qs(1,2) c(1,3) by simp
      show "last (orig # qs @ [t]) = t" by simp
      show "set (qs @ [t]) \<subseteq> R" using qs(3) less.prems by simp
      show "sum_list (map (stepCost g) (qs @ [t])) = mv - left t"
        using qs(4) c(4) by simp
    qed
  qed
qed


lemma treeInv_origD:
  "treeInv g u orig mv C M V Q left \<Longrightarrow> orig \<in> V \<and> left orig = mv"
  by (simp add: treeInv_def)

lemma treeInv_treeD:
  "treeInv g u orig mv C M V Q left \<Longrightarrow> t \<in> V \<Longrightarrow> t \<noteq> orig \<Longrightarrow>
     passable g u t \<and> 0 \<le> left t
     \<and> (\<exists>c \<in> M. t \<in> set (neighbours c) \<and> left t = left c - stepCost g t)"
  by (simp add: treeInv_def)

lemma treeInv_closedD:
  "treeInv g u orig mv C M V Q left \<Longrightarrow> c \<in> C \<Longrightarrow> n \<in> set (neighbours c) \<Longrightarrow>
     passable g u n \<Longrightarrow> 0 \<le> left c - stepCost g n \<Longrightarrow> n \<in> V"
  by (simp add: treeInv_def)

section \<open>The search of the code and the search of the specification\<close>

lemma costQueue_snoc:
  "costQueue budget (Q @ [(nx, ny, ml - c)]) = costQueue budget Q @ [((nx, ny), budget - ml + c)]"
  by (simp add: costQueue_def qpos_def)

lemma visitNeighbour_enqueueNeighbour:
  assumes "rect (nat gridSize_height) (nat gridSize_width) visited"
      and "\<forall>q \<in> set Q. inBounds2 (fst q) (fst (snd q))"
      and "set vs = markedSet visited"
      and "visitNeighbour g u (cx, cy, ml) (dx, dy) (visited, Q) = (visited', Q')"
  shows "\<exists>vs'. enqueueNeighbour g u budget (budget - ml) (cx + dx, cy + dy)
                  (vs, costQueue budget Q) = (vs', costQueue budget Q')
           \<and> set vs' = markedSet visited'
           \<and> rect (nat gridSize_height) (nat gridSize_width) visited'
           \<and> (\<forall>q \<in> set Q'. inBounds2 (fst q) (fst (snd q)))
           \<and> card (unvisited visited') + length Q' \<le> card (unvisited visited) + length Q"
proof (cases "passable g u (cx + dx, cy + dy) \<and> (cx + dx, cy + dy) \<notin> markedSet visited
         \<and> 0 \<le> ml - stepCost g (cx + dx, cy + dy)")
  case True
  let ?n = "(cx + dx, cy + dy)"
  let ?k = "ml - stepCost g ?n"
  from assms(4)[unfolded visitNeighbour_eq if_P[OF True]]
  have v: "visited' = set2 visited (cx + dx) (cy + dy) True"
    and q: "Q' = Q @ [(cx + dx, cy + dy, ?k)]"
    by simp_all
  from True have ib: "inBounds2 (cx + dx) (cy + dy)"
    by (simp add: passable_def)
  have ms: "markedSet visited' = insert ?n (markedSet visited)"
    unfolding v by (rule markedSet_set2[OF assms(1) ib])
  have cnt: "Suc (card (unvisited visited')) = card (unvisited visited)"
    unfolding v using True by (intro card_unvisited_set2[OF assms(1) ib]) simp
  have c: "passable g u ?n \<and> ?n \<notin> set vs \<and> budget - ml + stepCost g ?n \<le> budget"
    using True assms(3) by simp
  have e: "enqueueNeighbour g u budget (budget - ml) ?n (vs, costQueue budget Q)
             = (?n # vs, costQueue budget Q')"
    unfolding q costQueue_snoc enqueueNeighbour_def using c by simp
  show ?thesis
  proof (intro exI[of _ "?n # vs"] conjI)
    show "enqueueNeighbour g u budget (budget - ml) ?n (vs, costQueue budget Q)
             = (?n # vs, costQueue budget Q')" by (rule e)
    show "set (?n # vs) = markedSet visited'" unfolding ms using assms(3) by simp
    show "rect (nat gridSize_height) (nat gridSize_width) visited'"
      unfolding v by (rule rect_set2[OF assms(1)])
    show "\<forall>q \<in> set Q'. inBounds2 (fst q) (fst (snd q))"
      unfolding q using assms(2) ib by simp
    show "card (unvisited visited') + length Q' \<le> card (unvisited visited) + length Q"
      using cnt unfolding q by simp
  qed
next
  case False
  let ?n = "(cx + dx, cy + dy)"
  from assms(4)[unfolded visitNeighbour_eq if_not_P[OF False]]
  have v: "visited' = visited" and q: "Q' = Q"
    by simp_all
  have c: "\<not> (passable g u ?n \<and> ?n \<notin> set vs \<and> budget - ml + stepCost g ?n \<le> budget)"
    using False assms(3) by simp
  have e: "enqueueNeighbour g u budget (budget - ml) ?n (vs, costQueue budget Q)
             = (vs, costQueue budget Q)"
    unfolding enqueueNeighbour_def using c by simp
  from e assms(1,2,3) show ?thesis
    unfolding v q by (intro exI[of _ vs]) simp
qed

lemma fold_visitNeighbour_enqueueNeighbour:
  assumes "rect (nat gridSize_height) (nat gridSize_width) visited"
      and "\<forall>q \<in> set Q. inBounds2 (fst q) (fst (snd q))"
      and "set vs = markedSet visited"
      and "fold (visitNeighbour g u (cx, cy, ml)) ds (visited, Q) = (visited', Q')"
  shows "\<exists>vs'. fold (enqueueNeighbour g u budget (budget - ml))
                  (map (\<lambda>d. (cx + fst d, cy + snd d)) ds) (vs, costQueue budget Q)
                = (vs', costQueue budget Q')
           \<and> set vs' = markedSet visited'
           \<and> rect (nat gridSize_height) (nat gridSize_width) visited'
           \<and> (\<forall>q \<in> set Q'. inBounds2 (fst q) (fst (snd q)))
           \<and> card (unvisited visited') + length Q' \<le> card (unvisited visited) + length Q"
  using assms
proof (induction ds arbitrary: visited Q vs)
  case Nil
  then show ?case
    by (intro exI[of _ vs]) simp
next
  case (Cons d ds)
  obtain dx dy where d: "d = (dx, dy)" by (cases d)
  obtain v1 Q1 where s1: "visitNeighbour g u (cx, cy, ml) (dx, dy) (visited, Q) = (v1, Q1)"
    by (cases "visitNeighbour g u (cx, cy, ml) (dx, dy) (visited, Q)")
  from visitNeighbour_enqueueNeighbour[OF Cons.prems(1,2,3) s1, of budget]
  obtain vs1 where l1:
    "enqueueNeighbour g u budget (budget - ml) (cx + dx, cy + dy) (vs, costQueue budget Q)
       = (vs1, costQueue budget Q1)"
    "set vs1 = markedSet v1"
    "rect (nat gridSize_height) (nat gridSize_width) v1"
    "\<forall>q \<in> set Q1. inBounds2 (fst q) (fst (snd q))"
    "card (unvisited v1) + length Q1 \<le> card (unvisited visited) + length Q"
    by blast
  from Cons.prems(4) d s1
  have f: "fold (visitNeighbour g u (cx, cy, ml)) ds (v1, Q1) = (visited', Q')"
    by simp
  from Cons.IH[OF l1(3,4,2) f]
  obtain vs' where l2:
    "fold (enqueueNeighbour g u budget (budget - ml))
       (map (\<lambda>d. (cx + fst d, cy + snd d)) ds) (vs1, costQueue budget Q1)
     = (vs', costQueue budget Q')"
    "set vs' = markedSet visited'"
    "rect (nat gridSize_height) (nat gridSize_width) visited'"
    "\<forall>q \<in> set Q'. inBounds2 (fst q) (fst (snd q))"
    "card (unvisited visited') + length Q' \<le> card (unvisited v1) + length Q1"
    by blast
  show ?case
  proof (intro exI[of _ vs'] conjI)
    show "fold (enqueueNeighbour g u budget (budget - ml))
            (map (\<lambda>d. (cx + fst d, cy + snd d)) (d # ds)) (vs, costQueue budget Q)
          = (vs', costQueue budget Q')"
      using l1(1) l2(1) d by simp
    show "set vs' = markedSet visited'" by (rule l2(2))
    show "rect (nat gridSize_height) (nat gridSize_width) visited'" by (rule l2(3))
    show "\<forall>q \<in> set Q'. inBounds2 (fst q) (fst (snd q))" by (rule l2(4))
    show "card (unvisited visited') + length Q' \<le> card (unvisited visited) + length Q"
      using l1(5) l2(5) by simp
  qed
qed

lemma movesLoop_breadthFirst:
  assumes "rect (nat gridSize_height) (nat gridSize_width) visited"
      and "rect (nat gridSize_height) (nat gridSize_width) moves"
      and "\<forall>q \<in> set Q. inBounds2 (fst q) (fst (snd q))"
      and "set vs = markedSet visited" and "set rs = markedSet moves"
  shows "\<exists>res tiles. movesLoop g u Q visited moves = Some res
           \<and> breadthFirst g u budget (costQueue budget Q) vs rs = Some tiles
           \<and> set tiles = markedSet res"
  using assms
proof (induction "card (unvisited visited) + length Q" arbitrary: visited moves Q vs rs
    rule: less_induct)
  case less
  show ?case
  proof (cases Q)
    case Nil
    with less.prems(5) show ?thesis
      by (subst movesLoop.simps, subst breadthFirst.simps) (simp add: costQueue_def)
  next
    case (Cons q rest)
    obtain cx cy ml where q: "q = (cx, cy, ml)" by (cases q)
    from less.prems(3) have ib: "inBounds2 cx cy"
      and rib: "\<forall>q \<in> set rest. inBounds2 (fst q) (fst (snd q))"
      unfolding Cons q by simp_all
    have M': "markedSet (set2 moves cx cy True) = insert (cx, cy) (markedSet moves)"
      by (rule markedSet_set2[OF less.prems(2) ib])
    have r': "rect (nat gridSize_height) (nat gridSize_width) (set2 moves cx cy True)"
      by (rule rect_set2[OF less.prems(2)])
    have rs': "set (rs @ [(cx, cy)]) = markedSet (set2 moves cx cy True)"
      unfolding M' using less.prems(5) by simp
    obtain v' Q' where f: "fold (visitNeighbour g u (cx, cy, ml)) directions (visited, rest) = (v', Q')"
      by (cases "fold (visitNeighbour g u (cx, cy, ml)) directions (visited, rest)")
    from fold_visitNeighbour_enqueueNeighbour[OF less.prems(1) rib less.prems(4) f, of budget]
    obtain vs' where l:
      "fold (enqueueNeighbour g u budget (budget - ml))
         (map (\<lambda>d. (cx + fst d, cy + snd d)) directions) (vs, costQueue budget rest)
       = (vs', costQueue budget Q')"
      "set vs' = markedSet v'"
      "rect (nat gridSize_height) (nat gridSize_width) v'"
      "\<forall>q \<in> set Q'. inBounds2 (fst q) (fst (snd q))"
      "card (unvisited v') + length Q' \<le> card (unvisited visited) + length rest"
      by blast
    from l(5) have "card (unvisited v') + length Q' < card (unvisited visited) + length Q"
      unfolding Cons by simp
    from less.hyps[OF this l(3) r' l(4) l(2) rs']
    obtain res tiles where ih: "movesLoop g u Q' v' (set2 moves cx cy True) = Some res"
      "breadthFirst g u budget (costQueue budget Q') vs' (rs @ [(cx, cy)]) = Some tiles"
      "set tiles = markedSet res"
      by blast
    have cq: "costQueue budget Q = ((cx, cy), budget - ml) # costQueue budget rest"
      unfolding Cons q by (simp add: costQueue_def qpos_def)
    have nb: "neighbours (cx, cy) = map (\<lambda>d. (cx + fst d, cy + snd d)) directions"
      by (simp add: neighbours_def)
    have a: "movesLoop g u Q visited moves = Some res"
      unfolding Cons q using f ih(1) by (subst movesLoop.simps) simp
    have b: "breadthFirst g u budget (costQueue budget Q) vs rs = Some tiles"
      unfolding cq using l(1) ih(2) nb by (subst breadthFirst.simps) simp
    from a b ih(3) show ?thesis by blast
  qed
qed

lemma calculateValidMoves_breadthFirst:
  assumes "inBounds2 x y" and "unit2 (at2 g x y) = Some u"
  shows "\<exists>m tiles. calculateValidMoves g x y = Some m
           \<and> reachableTiles g u (x, y) = Some tiles \<and> set tiles = markedSet m"
proof -
  let ?mv = "movement (UNIT_STATS (type2 u))"
  have v: "set [(x, y)] = markedSet (set2 falseGrid x y True)"
    unfolding markedSet_set2[OF rect_falseGrid assms(1)] markedSet_falseGrid by simp
  have r: "set [] = markedSet falseGrid"
    by (simp add: markedSet_falseGrid)
  have q: "\<forall>q \<in> set [(x, y, ?mv)]. inBounds2 (fst q) (fst (snd q))"
    using assms(1) by simp
  have c: "costQueue ?mv [(x, y, ?mv)] = [((x, y), 0)]"
    by (simp add: costQueue_def qpos_def)
  from movesLoop_breadthFirst[OF rect_set2[OF rect_falseGrid] rect_falseGrid q v r,
      of g u ?mv]
  show ?thesis
    unfolding calculateValidMoves_def reachableTiles_def c using assms(2) by simp
qed

section \<open>Reachable tiles\<close>

text \<open>
  C1. For a unit \<open>u\<close> at \<open>(x, y)\<close>, \<open>calculateValidMoves\<close> returns, and the tiles
  marked in the map \<open>m\<close> it returns are exactly the tiles that \<open>reachableTiles\<close>, the
  breadth-first search in the words of the specification, takes from its queue. So the
  map is the result of a search from \<open>(x, y)\<close> over the four neighbours: there is a
  budget \<open>left\<close> for every marked tile such that
  \<^item> \<open>(x, y)\<close> is marked, with the movement of the unit as its budget;
  \<^item> every other marked tile is on the board, holds no unit of the other player, and was
    entered from a marked neighbour \<open>c\<close>, for the price of 2 on a mountain and 1 elsewhere,
    which the budget of \<open>c\<close> could pay;
  \<^item> every passable neighbour of a marked tile \<open>c\<close> that the budget of \<open>c\<close> can pay is
    marked;
  \<^item> every marked tile is the end of a walk from \<open>(x, y)\<close> over marked tiles whose cost
    is the movement of the unit less the budget of the tile, so at most the movement.
  Without a unit at \<open>(x, y)\<close> no tile is marked.
\<close>

theorem calculateValidMoves_search:
  assumes "wfGrid2 g" and "inBounds2 x y"
  shows "case unit2 (at2 g x y) of
           None \<Rightarrow> calculateValidMoves g x y = Some falseGrid
         | Some u \<Rightarrow>
            (\<exists>m left. calculateValidMoves g x y = Some m
               \<and> rect (nat gridSize_height) (nat gridSize_width) m
               \<and> map_option set (reachableTiles g u (x, y)) = Some (markedSet m)
               \<and> marked m (x, y) \<and> left (x, y) = movement (UNIT_STATS (type2 u))
               \<and> (\<forall>t. marked m t \<and> t \<noteq> (x, y) \<longrightarrow>
                     passable g u t \<and> 0 \<le> left t
                     \<and> (\<exists>c. marked m c \<and> t \<in> set (neighbours c)
                            \<and> left t = left c - stepCost g t))
               \<and> (\<forall>c n. marked m c \<and> n \<in> set (neighbours c) \<and> passable g u n
                       \<and> 0 \<le> left c - stepCost g n \<longrightarrow> marked m n)
               \<and> (\<forall>t. marked m t \<longrightarrow>
                     (\<exists>qs. walk g u (x, y) qs \<and> last ((x, y) # qs) = t
                         \<and> (\<forall>q \<in> set qs. marked m q)
                         \<and> sum_list (map (stepCost g) qs)
                             = movement (UNIT_STATS (type2 u)) - left t
                         \<and> sum_list (map (stepCost g) qs) \<le> movement (UNIT_STATS (type2 u)))))"
proof (cases "unit2 (at2 g x y)")
  case None
  then show ?thesis by (simp add: calculateValidMoves_def)
next
  case (Some u)
  let ?mv = "movement (UNIT_STATS (type2 u))"
  from calculateValidMoves_tree[OF assms(2) Some]
  obtain m left where m: "calculateValidMoves g x y = Some m"
    "rect (nat gridSize_height) (nat gridSize_width) m"
    "treeInv g u (x, y) ?mv (markedSet m) (markedSet m) (markedSet m) [] left"
    by blast
  from calculateValidMoves_breadthFirst[OF assms(2) Some] m(1)
  have bf: "map_option set (reachableTiles g u (x, y)) = Some (markedSet m)"
    by auto
  have mk: "\<And>p. p \<in> markedSet m \<longleftrightarrow> marked m p"
    by (simp add: markedSet_def)
  have a: "marked m (x, y) \<and> left (x, y) = ?mv"
    using treeInv_origD[OF m(3)] by (simp add: mk)
  have b: "\<forall>t. marked m t \<and> t \<noteq> (x, y) \<longrightarrow>
             passable g u t \<and> 0 \<le> left t
             \<and> (\<exists>c. marked m c \<and> t \<in> set (neighbours c) \<and> left t = left c - stepCost g t)"
  proof (intro allI impI)
    fix t assume "marked m t \<and> t \<noteq> (x, y)"
    then have t: "t \<in> markedSet m" "t \<noteq> (x, y)"
      by (simp_all add: mk)
    from treeInv_treeD[OF m(3) t] obtain c where c: "passable g u t" "0 \<le> left t"
      "c \<in> markedSet m" "t \<in> set (neighbours c)" "left t = left c - stepCost g t"
      by blast
    then have "marked m c" by (simp add: mk)
    with c show "passable g u t \<and> 0 \<le> left t
             \<and> (\<exists>c. marked m c \<and> t \<in> set (neighbours c) \<and> left t = left c - stepCost g t)"
      by blast
  qed
  have c: "\<forall>c n. marked m c \<and> n \<in> set (neighbours c) \<and> passable g u n
             \<and> 0 \<le> left c - stepCost g n \<longrightarrow> marked m n"
  proof (intro allI impI)
    fix c n assume h: "marked m c \<and> n \<in> set (neighbours c) \<and> passable g u n
             \<and> 0 \<le> left c - stepCost g n"
    then have "c \<in> markedSet m" by (simp add: mk)
    from treeInv_closedD[OF m(3) this] h show "marked m n"
      by (simp add: mk)
  qed
  have d: "\<forall>t. marked m t \<longrightarrow>
             (\<exists>qs. walk g u (x, y) qs \<and> last ((x, y) # qs) = t \<and> (\<forall>q \<in> set qs. marked m q)
                 \<and> sum_list (map (stepCost g) qs) = ?mv - left t
                 \<and> sum_list (map (stepCost g) qs) \<le> ?mv)"
  proof (intro allI impI)
    fix t assume t: "marked m t"
    then have tR: "t \<in> markedSet m" by (simp add: mk)
    from tree_walk[OF m(3) tR] obtain qs where qs: "walk g u (x, y) qs"
      "last ((x, y) # qs) = t" "set qs \<subseteq> markedSet m"
      "sum_list (map (stepCost g) qs) = ?mv - left t"
      by blast
    have "0 \<le> left t"
    proof (cases "t = (x, y)")
      case True
      have "0 \<le> movement (UNIT_STATS (type2 u))"
        by (cases "type2 u") simp_all
      with True a show ?thesis by simp
    next
      case False
      with b t show ?thesis by blast
    qed
    then have le: "sum_list (map (stepCost g) qs) \<le> ?mv"
      using qs(4) by simp
    from qs(3) have mq: "\<forall>q \<in> set qs. marked m q"
      by (auto simp: markedSet_def)
    from qs(1,2) mq qs(4) le
    show "\<exists>qs. walk g u (x, y) qs \<and> last ((x, y) # qs) = t
                 \<and> (\<forall>q \<in> set qs. marked m q)
                 \<and> sum_list (map (stepCost g) qs) = ?mv - left t
                 \<and> sum_list (map (stepCost g) qs) \<le> ?mv"
      by (intro exI[of _ qs] conjI)
  qed
  show ?thesis
    unfolding Some option.case
    by (intro exI[of _ m] exI[of _ left] conjI)
       (rule m(1) m(2) bf conjunct1[OF a] conjunct2[OF a] b c d)+
qed


theorem calculateValidMoves_search_witness:
  "wfGrid2 tankGrid2 \<and> inBounds2 2 2
   \<and> unit2 (at2 tankGrid2 2 2) = Some \<lparr>type2 = tank, player2 = P1, hp = 100\<rparr>
   \<and> (\<exists>m. calculateValidMoves tankGrid2 2 2 = Some m
          \<and> marked m (2, 2) \<and> marked m (8, 2) \<and> \<not> marked m (9, 2) \<and> \<not> marked m (9, 7))"
proof -
  let ?u = "\<lparr>type2 = tank, player2 = P1, hp = 100\<rparr>"
  have h: "wfGrid2 tankGrid2" "inBounds2 2 2" "unit2 (at2 tankGrid2 2 2) = Some ?u"
    by code_simp+
  have e: "reachableTiles tankGrid2 ?u (2, 2) \<noteq> None"
    "(8, 2) \<in> set (the (reachableTiles tankGrid2 ?u (2, 2)))"
    "(9, 2) \<notin> set (the (reachableTiles tankGrid2 ?u (2, 2)))"
    "(9, 7) \<notin> set (the (reachableTiles tankGrid2 ?u (2, 2)))"
    by code_simp+
  from calculateValidMoves_search[OF h(1,2), unfolded h(3) option.case]
  obtain m where m: "calculateValidMoves tankGrid2 2 2 = Some m"
    "map_option set (reachableTiles tankGrid2 ?u (2, 2)) = Some (markedSet m)"
    "marked m (2, 2)"
    by blast
  from m(2) e(1) have "markedSet m = set (the (reachableTiles tankGrid2 ?u (2, 2)))"
    by auto
  then have "\<And>p. marked m p \<longleftrightarrow> p \<in> set (the (reachableTiles tankGrid2 ?u (2, 2)))"
    unfolding markedSet_def by blast
  with e(2,3,4) have "marked m (8, 2)" "\<not> marked m (9, 2)" "\<not> marked m (9, 7)"
    by blast+
  with h m(1,3) show ?thesis
    by blast
qed

section \<open>The origin tile\<close>

text \<open>
  C4, as the code has it. In \<open>Game.tsx\<close> the tile of the unit is never in the list of
  \<open>calculateMovementRange\<close>, because that tile holds the unit. In \<open>Game2\<close> the tile of
  the unit is always marked in the map of \<open>calculateValidMoves\<close>; what keeps the unit
  from moving onto its own tile is \<open>handleCellClick\<close>, which moves onto a tile only when
  it holds no unit: after a click on a tile with a unit the board is the same, or the
  selected unit has attacked that tile.
\<close>

theorem origin_tile:
  "(position v = (px, py) \<and> unit (tileAt b px py) \<noteq> None
      \<longrightarrow> (px, py) \<notin> set (calculateMovementRange b v))
   \<and> (wfGrid2 g \<and> inBounds2 x y \<and> unit2 (at2 g x y) \<noteq> None
      \<longrightarrow> calculateValidMoves g x y \<noteq> None \<and> marked (the (calculateValidMoves g x y)) (x, y))
   \<and> (unit2 (at2 (grid2 st) cx cy) \<noteq> None \<and> handleCellClick st cx cy = Some st'
      \<longrightarrow> grid2 st' = grid2 st
          \<or> grid2 st' = performAttack (grid2 st) (fst (the (selectedCell st)))
                (snd (the (selectedCell st))) cx cy)"
proof (intro conjI impI)
  assume "position v = (px, py) \<and> unit (tileAt b px py) \<noteq> None"
  then show "(px, py) \<notin> set (calculateMovementRange b v)"
    using calculateMovementRange_iff[of v px py px py b] by simp
next
  assume h: "wfGrid2 g \<and> inBounds2 x y \<and> unit2 (at2 g x y) \<noteq> None"
  then obtain u where u: "unit2 (at2 g x y) = Some u" by auto
  from h calculateValidMoves_tree[OF _ u]
  obtain res left where r: "calculateValidMoves g x y = Some res"
    "treeInv g u (x, y) (movement (UNIT_STATS (type2 u)))
       (markedSet res) (markedSet res) (markedSet res) [] left"
    by blast
  from treeInv_origD[OF r(2)] have "marked res (x, y)"
    by (simp add: markedSet_def)
  with r(1) show "calculateValidMoves g x y \<noteq> None" and
    "marked (the (calculateValidMoves g x y)) (x, y)"
    by simp_all
next
  assume "unit2 (at2 (grid2 st) cx cy) \<noteq> None \<and> handleCellClick st cx cy = Some st'"
  then show "grid2 st' = grid2 st
          \<or> grid2 st' = performAttack (grid2 st) (fst (the (selectedCell st)))
                (snd (the (selectedCell st))) cx cy"
    by (auto simp: handleCellClick_def selectClicked_def Let_def
          split: if_splits option.splits prod.splits)
qed

theorem origin_tile_witness:
  "position redInfantry = (1, 0) \<and> unit (tileAt (grid duelState) 1 0) \<noteq> None
   \<and> (1, 0) \<notin> set (calculateMovementRange (grid duelState) redInfantry)
   \<and> wfGrid2 duelGrid2 \<and> inBounds2 2 2 \<and> unit2 (at2 duelGrid2 2 2) \<noteq> None
   \<and> marked (the (calculateValidMoves duelGrid2 2 2)) (2, 2)
   \<and> unit2 (at2 (grid2 duelState2) 2 2) \<noteq> None
   \<and> handleCellClick duelState2 2 2 = Some (the (handleCellClick duelState2 2 2))
   \<and> grid2 (the (handleCellClick duelState2 2 2)) = grid2 duelState2"
proof -
  have h: "position redInfantry = (1, 0) \<and> unit (tileAt (grid duelState) 1 0) \<noteq> None"
    "wfGrid2 duelGrid2 \<and> inBounds2 2 2 \<and> unit2 (at2 duelGrid2 2 2) \<noteq> None"
    "unit2 (at2 (grid2 duelState2) 2 2) \<noteq> None"
    "handleCellClick duelState2 2 2 \<noteq> None"
    "selectedCell duelState2 = None"
    by code_simp+
  from h(4) have k: "handleCellClick duelState2 2 2 = Some (the (handleCellClick duelState2 2 2))"
    by simp
  have n: "grid2 (the (handleCellClick duelState2 2 2)) = grid2 duelState2"
    by code_simp
  from origin_tile[of redInfantry 1 0 "grid duelState" duelGrid2 2 2 duelState2 2 2
      "the (handleCellClick duelState2 2 2)"] h k n
  show ?thesis by blast
qed

text \<open>
  C4 as the claim has it fails in \<open>Game2\<close>: on the first board the map computed for the
  Infantry at \<open>(2, 2)\<close> marks \<open>(2, 2)\<close>.
\<close>

theorem origin_tile_counterexample:
  "unit2 (at2 initialGrid2 2 2) = Some \<lparr>type2 = infantry, player2 = P1, hp = 100\<rparr>
   \<and> calculateValidMoves initialGrid2 2 2 \<noteq> None
   \<and> at2 (the (calculateValidMoves initialGrid2 2 2)) 2 2"
  by code_simp

end
